theory Spec2Isabelle
  imports Main
begin

section \<open>Values of the host language\<close>

text \<open>
  The token codec (utils) and the token manager (JWTManager) are TypeScript. The
  values they handle are modelled as follows.
  \<^item> A number is an integer or \<open>NaN\<close>: timestamps are integral, and in the range of
    timestamps the arithmetic of the host is exact. Fractions and infinities are not
    modelled.
  \<^item> A string is a list of characters.
  \<^item> A value of type \<open>any\<close> (the decoded payload, a response body, the argument of
    \<open>isValidJWTFormat\<close> as the tests call it) is a \<open>js_value\<close>; an object is the list
    of its properties.
  \<^item> An exception is a value of type \<open>error\<close>; a function that can throw returns
    \<open>error + 'a\<close>, with \<open>Inl\<close> for the exception.
\<close>

datatype number = Num int | NaN

datatype js_value =
    JUndefined
  | JNull
  | JBool bool
  | JNum int
  | JStr string
  | JArr "js_value list"
  | JObj "(string \<times> js_value) list"

datatype error =
    Error string
  | TypeError string
  | TokenRefreshError string error
  | NoValidTokenError string

fun message :: "error \<Rightarrow> string" where
  "message (Error m) = m"
| "message (TypeError m) = m"
| "message (TokenRefreshError m cause) = m"
| "message (NoValidTokenError m) = m"

fun error_name :: "error \<Rightarrow> string" where
  "error_name (Error m) = ''Error''"
| "error_name (TypeError m) = ''TypeError''"
| "error_name (TokenRefreshError m cause) = ''TokenRefreshError''"
| "error_name (NoValidTokenError m) = ''NoValidTokenError''"

text \<open>The string an error is interpolated as: its name, a colon and its message.\<close>

definition error_to_string :: "error \<Rightarrow> string" where
  "error_to_string e =
     (if message e = [] then error_name e else error_name e @ '': '' @ message e)"

text \<open>Truthiness, as tested by \<open>!v\<close>, \<open>v ? a : b\<close> and \<open>v || d\<close>.\<close>

fun truthy :: "js_value \<Rightarrow> bool" where
  "truthy JUndefined = False"
| "truthy JNull = False"
| "truthy (JBool b) = b"
| "truthy (JNum n) = (n \<noteq> 0)"
| "truthy (JStr s) = (s \<noteq> [])"
| "truthy (JArr xs) = True"
| "truthy (JObj ps) = True"

text \<open>
  The functions of the host that the codec and the manager call. They are not part of the
  repository and are parameters of the model: \<open>atob\<close> and \<open>JSON_parse\<close> may throw,
  \<open>coerce\<close> is the conversion to a number of a string, an array or an object, and
  \<open>JSON_stringify\<close> serialises a request body.
\<close>

record host =
  atob :: "string \<Rightarrow> error + string"
  JSON_parse :: "string \<Rightarrow> error + js_value"
  coerce :: "js_value \<Rightarrow> number"
  JSON_stringify :: "js_value \<Rightarrow> string"

fun ToNumber :: "host \<Rightarrow> js_value \<Rightarrow> number" where
  "ToNumber h (JNum n) = Num n"
| "ToNumber h (JBool b) = Num (if b then 1 else 0)"
| "ToNumber h JNull = Num 0"
| "ToNumber h JUndefined = NaN"
| "ToNumber h v = coerce h v"

fun js_times :: "number \<Rightarrow> int \<Rightarrow> number" where
  "js_times (Num a) b = Num (a * b)"
| "js_times NaN b = NaN"

fun js_minus :: "number \<Rightarrow> int \<Rightarrow> number" where
  "js_minus (Num a) b = Num (a - b)"
| "js_minus NaN b = NaN"

text \<open>\<open>a >= b\<close> and \<open>a > b\<close> with a number on the right or on the left; false on \<open>NaN\<close>.\<close>

fun js_ge :: "int \<Rightarrow> number \<Rightarrow> bool" where
  "js_ge a (Num b) = (b \<le> a)"
| "js_ge a NaN = False"

fun js_gt :: "number \<Rightarrow> int \<Rightarrow> bool" where
  "js_gt (Num a) b = (b < a)"
| "js_gt NaN b = False"

section \<open>The token codec\<close>

text \<open>
  \<open>s.split(sep)\<close> for a separator of one character: the substrings between the
  separators, in order. The empty string has one segment, the empty one.
\<close>

fun js_split :: "char \<Rightarrow> string \<Rightarrow> string list" where
  "js_split sep [] = [[]]"
| "js_split sep (c # cs) =
     (if c = sep then [] # js_split sep cs
      else (case js_split sep cs of [] \<Rightarrow> [[c]] | p # ps \<Rightarrow> (c # p) # ps))"

text \<open>\<open>s.replace(/a/g, b)\<close> for single characters.\<close>

definition replace_all :: "char \<Rightarrow> char \<Rightarrow> string \<Rightarrow> string" where
  "replace_all a b s = map (\<lambda>c. if c = a then b else c) s"

record JWTToken =
  token :: string
  expiresAt :: number

text \<open>
  \<open>decodeJWT\<close>: an error whose message is \<open>Invalid JWT token format\<close> is thrown again as
  it is, any other becomes \<open>Failed to decode JWT token\<close>.
\<close>

definition decode_catch :: "error \<Rightarrow> error" where
  "decode_catch e =
     (if message e = ''Invalid JWT token format'' then e
      else Error ''Failed to decode JWT token'')"

definition decodeJWT :: "host \<Rightarrow> string \<Rightarrow> error + js_value" where
  "decodeJWT h tok =
     (let parts = js_split CHR ''.'' tok in
      if length parts \<noteq> 3 then Inl (decode_catch (Error ''Invalid JWT token format''))
      else
        let payload = parts ! 1 in
        case atob h (replace_all CHR ''_'' CHR ''/'' (replace_all CHR ''-'' CHR ''+'' payload)) of
          Inl e \<Rightarrow> Inl (decode_catch e)
        | Inr decoded \<Rightarrow>
            (case JSON_parse h decoded of
               Inl e \<Rightarrow> Inl (decode_catch e)
             | Inr v \<Rightarrow> Inr v))"

text \<open>
  \<open>payload.exp\<close>: reading a property of \<open>null\<close> or \<open>undefined\<close> throws a TypeError; a
  primitive value and an array have no property \<open>exp\<close>; an object has it when it is
  among its properties.
\<close>

fun payload_exp :: "js_value \<Rightarrow> error + js_value" where
  "payload_exp JUndefined = Inl (TypeError ''Cannot read properties of undefined'')"
| "payload_exp JNull = Inl (TypeError ''Cannot read properties of null'')"
| "payload_exp (JObj ps) = (case map_of ps ''exp'' of None \<Rightarrow> Inr JUndefined | Some v \<Rightarrow> Inr v)"
| "payload_exp v = Inr JUndefined"

definition getTokenExpiration :: "host \<Rightarrow> string \<Rightarrow> error + number" where
  "getTokenExpiration h tok =
     (case decodeJWT h tok of
        Inl e \<Rightarrow> Inl e
      | Inr payload \<Rightarrow>
          (case payload_exp payload of
             Inl e \<Rightarrow> Inl e
           | Inr exp \<Rightarrow>
               if \<not> truthy exp then Inl (Error ''Token does not contain expiration time'')
               else Inr (js_times (ToNumber h exp) 1000)))"

definition createJWTToken :: "host \<Rightarrow> string \<Rightarrow> error + JWTToken" where
  "createJWTToken h tok =
     (case getTokenExpiration h tok of
        Inl e \<Rightarrow> Inl e
      | Inr e \<Rightarrow> Inr \<lparr>token = tok, expiresAt = e\<rparr>)"

text \<open>\<open>isTokenExpired\<close>, with the reading of the clock (\<open>Date.now()\<close>) as first argument.\<close>

definition isTokenExpired :: "int \<Rightarrow> JWTToken \<Rightarrow> int \<Rightarrow> bool" where
  "isTokenExpired now t bufferMs = js_ge now (js_minus (expiresAt t) bufferMs)"

text \<open>
  \<open>isValidJWTFormat\<close>: false on a falsy argument and on one that is not a string;
  otherwise three segments, none of them empty.
\<close>

definition isValidJWTFormat :: "js_value \<Rightarrow> bool" where
  "isValidJWTFormat v =
     (case v of
        JStr s \<Rightarrow>
          if \<not> truthy (JStr s) then False
          else
            let parts = js_split CHR ''.'' s in
            length parts = 3 \<and> list_all (\<lambda>part. 0 < length part) parts
      | _ \<Rightarrow> False)"

section \<open>The token manager\<close>

subsection \<open>Configuration, requests and responses\<close>

text \<open>
  \<open>extractAccessToken\<close> is the caller's function from the body of the refresh response
  to a token. It may throw, it may return \<open>null\<close> (\<open>None\<close>), and it may read the clock,
  as the one of the tests does; the clock's reading is its first argument.
\<close>

record RefreshConfig =
  refresh_url :: string
  refresh_method :: "string option"
  refresh_headers :: "(string \<rightharpoonup> string) option"
  extractAccessToken :: "int \<Rightarrow> js_value \<Rightarrow> error + JWTToken option"

record JWTManagerConfig =
  refreshConfig :: RefreshConfig
  refreshBuffer :: int

text \<open>
  The second argument of \<open>fetch\<close>. \<open>RequestOptions\<close> is the caller's \<open>options\<close>, spread
  last into that argument: a property it has replaces the manager's. The properties of
  \<open>options\<close> that the manager does not set itself are passed on as they are and left out
  here.
\<close>

record RequestInit =
  init_method :: string
  init_headers :: "string \<rightharpoonup> string"
  init_body :: "string option"
  init_credentials :: string

record RequestOptions =
  opt_method :: "string option"
  opt_headers :: "(string \<rightharpoonup> string) option"
  opt_body :: "string option"
  opt_credentials :: "string option"

record RequestConfig =
  url :: string
  req_method :: "string option"
  headers :: "(string \<rightharpoonup> string) option"
  body :: js_value
  options :: RequestOptions

record fetch_call =
  call_url :: string
  call_init :: RequestInit

text \<open>
  What \<open>fetch\<close> settles to. A response carries what reading its body as JSON and as text
  settles to; its headers are keyed by their lower-case names.
\<close>

record Response =
  resp_ok :: bool
  resp_status :: nat
  resp_statusText :: string
  resp_headers :: "string \<rightharpoonup> string"
  resp_json :: "error + js_value"
  resp_text :: "error + string"

datatype fetch_result = Rejects error | Resolves Response

record AuthenticatedResponse =
  data :: js_value
  status :: nat
  response_headers :: "string \<rightharpoonup> string"
  ok :: bool

text \<open>A number in a template string: its decimal digits.\<close>

fun show_nat :: "nat \<Rightarrow> string" where
  "show_nat n =
     (if n < 10 then [char_of (48 + n)]
      else show_nat (n div 10) @ [char_of (48 + n mod 10)])"

declare show_nat.simps [simp del]

text \<open>\<open>s.includes(sub)\<close>.\<close>

fun str_includes :: "string \<Rightarrow> string \<Rightarrow> bool" where
  "str_includes [] sub = (sub = [])"
| "str_includes (c # cs) sub = (take (length sub) (c # cs) = sub \<or> str_includes cs sub)"

text \<open>\<open>{...base, ...extra}\<close> for an optional \<open>extra\<close>: the properties of \<open>extra\<close> win.\<close>

definition spread :: "(string \<rightharpoonup> string) \<Rightarrow> (string \<rightharpoonup> string) option \<Rightarrow> (string \<rightharpoonup> string)" where
  "spread base extra = (case extra of None \<Rightarrow> base | Some m \<Rightarrow> base ++ m)"

definition apply_options :: "RequestOptions \<Rightarrow> RequestInit \<Rightarrow> RequestInit" where
  "apply_options opts i =
     \<lparr>init_method = (case opt_method opts of None \<Rightarrow> init_method i | Some m \<Rightarrow> m),
      init_headers = (case opt_headers opts of None \<Rightarrow> init_headers i | Some hs \<Rightarrow> hs),
      init_body = (case opt_body opts of None \<Rightarrow> init_body i | Some b \<Rightarrow> Some b),
      init_credentials = (case opt_credentials opts of None \<Rightarrow> init_credentials i | Some c \<Rightarrow> c)\<rparr>"

definition or_default :: "string option \<Rightarrow> string \<Rightarrow> string" where
  "or_default m d = (case m of None \<Rightarrow> d | Some x \<Rightarrow> if x = [] then d else x)"

text \<open>The call of \<open>fetch\<close> that \<open>performTokenRefresh\<close> makes.\<close>

definition refresh_call :: "JWTManagerConfig \<Rightarrow> fetch_call" where
  "refresh_call cfg =
     \<lparr>call_url = refresh_url (refreshConfig cfg),
      call_init =
        \<lparr>init_method = or_default (refresh_method (refreshConfig cfg)) ''POST'',
         init_headers =
           spread [''Content-Type'' \<mapsto> ''application/json''] (refresh_headers (refreshConfig cfg)),
         init_body = None,
         init_credentials = ''include''\<rparr>\<rparr>"

text \<open>The calls of \<open>fetch\<close> that \<open>request\<close> makes, for given headers.\<close>

definition request_call :: "host \<Rightarrow> RequestConfig \<Rightarrow> (string \<rightharpoonup> string) \<Rightarrow> fetch_call" where
  "request_call h config hdrs =
     \<lparr>call_url = url config,
      call_init =
        apply_options (options config)
          \<lparr>init_method = or_default (req_method config) ''GET'',
           init_headers = hdrs,
           init_body = (if truthy (body config) then Some (JSON_stringify h (body config)) else None),
           init_credentials = ''include''\<rparr>\<rparr>"

text \<open>
  The body of a response as \<open>request\<close> reads it: as JSON when the content type includes
  \<open>application/json\<close>, as text otherwise and when there is no content type.
\<close>

definition read_body :: "Response \<Rightarrow> error + js_value" where
  "read_body r =
     (if (case resp_headers r ''content-type'' of
            None \<Rightarrow> False
          | Some ct \<Rightarrow> str_includes ct ''application/json'')
      then resp_json r
      else (case resp_text r of Inl e \<Rightarrow> Inl e | Inr t \<Rightarrow> Inr (JStr t)))"

definition respond :: "Response \<Rightarrow> js_value \<Rightarrow> AuthenticatedResponse" where
  "respond r d =
     \<lparr>data = d, status = resp_status r, response_headers = resp_headers r, ok = resp_ok r\<rparr>"

subsection \<open>The state\<close>

text \<open>
  The three fields of a \<open>JWTManager\<close>, and the part of the host that its methods read and
  change:
  \<^item> \<open>clock\<close> is what \<open>Date.now()\<close> returns;
  \<^item> \<open>timers\<close> are the timeouts that are armed, each with its handle and its delay;
    \<open>setTimeout\<close> returns a handle that was never returned before;
  \<^item> a promise of \<open>refreshAccessToken\<close> is a number; \<open>outstanding\<close> lists the promises
    whose network call has not settled, \<open>settled\<close> gives the outcome of the others, and
    \<open>catching\<close> lists the promises on which a timer has put its \<open>catch\<close> handler;
  \<^item> \<open>fetches\<close> are the calls of \<open>fetch\<close> made so far, \<open>callbacks\<close> the calls of the
    three callbacks of the configuration, \<open>warnings\<close> the calls of \<open>console.warn\<close>.

  The callbacks are the caller's code. The model records that they are called; it takes
  them to return, and not to call the manager themselves.
\<close>

datatype callback = OnTokenRefresh JWTToken | OnTokenRefreshError error | OnAuthFailure

record JWTManager =
  accessToken :: "JWTToken option"
  refreshPromise :: "nat option"
  refreshTimeoutId :: "nat option"
  clock :: int
  timers :: "(nat \<times> int) list"
  next_timer :: nat
  next_promise :: nat
  outstanding :: "nat list"
  settled :: "nat \<rightharpoonup> error + JWTToken"
  catching :: "nat list"
  fetches :: "fetch_call list"
  callbacks :: "callback list"
  warnings :: "error list"

text \<open>A manager as its constructor leaves it, on a host that has done nothing yet.\<close>

definition new_manager :: "int \<Rightarrow> JWTManager" where
  "new_manager now =
     \<lparr>accessToken = None, refreshPromise = None, refreshTimeoutId = None,
      clock = now, timers = [], next_timer = 1, next_promise = 0,
      outstanding = [], settled = Map.empty, catching = [],
      fetches = [], callbacks = [], warnings = []\<rparr>"

definition notify :: "callback \<Rightarrow> JWTManager \<Rightarrow> JWTManager" where
  "notify c s = s\<lparr>callbacks := callbacks s @ [c]\<rparr>"

subsection \<open>Timers and the current token\<close>

text \<open>
  \<open>clearRefreshTimeout\<close>. A handle is truthy (a positive integer in a browser, an object
  in Node), so the test of the source is whether there is one.
\<close>

definition clearRefreshTimeout :: "JWTManager \<Rightarrow> JWTManager" where
  "clearRefreshTimeout s =
     (case refreshTimeoutId s of
        None \<Rightarrow> s
      | Some h \<Rightarrow> s\<lparr>timers := filter (\<lambda>t. fst t \<noteq> h) (timers s), refreshTimeoutId := None\<rparr>)"

definition setTimeout :: "int \<Rightarrow> JWTManager \<Rightarrow> nat \<times> JWTManager" where
  "setTimeout delay s =
     (next_timer s, s\<lparr>timers := timers s @ [(next_timer s, delay)], next_timer := Suc (next_timer s)\<rparr>)"

definition scheduleTokenRefresh :: "JWTManagerConfig \<Rightarrow> JWTManager \<Rightarrow> JWTManager" where
  "scheduleTokenRefresh cfg s0 =
     (let s = clearRefreshTimeout s0 in
      case accessToken s of
        None \<Rightarrow> s
      | Some t \<Rightarrow>
          (case js_minus (js_minus (expiresAt t) (clock s)) (refreshBuffer cfg) of
             NaN \<Rightarrow> s
           | Num timeUntilRefresh \<Rightarrow>
               if 0 < timeUntilRefresh then
                 (case setTimeout timeUntilRefresh s of
                    (h, s1) \<Rightarrow> s1\<lparr>refreshTimeoutId := Some h\<rparr>)
               else s))"

datatype token_input = TokenString string | TokenObject JWTToken

definition setAccessToken ::
  "host \<Rightarrow> JWTManagerConfig \<Rightarrow> token_input \<Rightarrow> JWTManager \<Rightarrow> error option \<times> JWTManager" where
  "setAccessToken h cfg input s =
     (case input of
        TokenString tok \<Rightarrow>
          if \<not> isValidJWTFormat (JStr tok) then (Some (Error ''Invalid JWT token format''), s)
          else
            (case createJWTToken h tok of
               Inl e \<Rightarrow> (Some e, s)
             | Inr t \<Rightarrow> (None, scheduleTokenRefresh cfg (s\<lparr>accessToken := Some t\<rparr>)))
      | TokenObject t \<Rightarrow> (None, scheduleTokenRefresh cfg (s\<lparr>accessToken := Some t\<rparr>)))"

definition getCurrentAccessToken :: "JWTManager \<Rightarrow> JWTToken option" where
  "getCurrentAccessToken s = accessToken s"

definition hasValidAccessToken :: "JWTManager \<Rightarrow> bool" where
  "hasValidAccessToken s =
     (case accessToken s of None \<Rightarrow> False | Some t \<Rightarrow> \<not> isTokenExpired (clock s) t 0)"

definition clearAccessToken :: "JWTManager \<Rightarrow> JWTManager" where
  "clearAccessToken s = (clearRefreshTimeout s)\<lparr>accessToken := None\<rparr>"

definition destroy :: "JWTManager \<Rightarrow> JWTManager" where
  "destroy s = (clearRefreshTimeout s)\<lparr>accessToken := None, refreshPromise := None\<rparr>"

subsection \<open>Refreshing\<close>

text \<open>
  \<open>refreshAccessToken\<close> is not asynchronous itself. With a promise in
  \<open>refreshPromise\<close> it returns that promise. Otherwise the asynchronous function it
  calls runs up to its first \<open>await\<close>, by which \<open>performTokenRefresh\<close> has called
  \<open>fetch\<close>; the promise of that function is new, and it is stored and returned.
\<close>

definition refreshAccessToken :: "JWTManagerConfig \<Rightarrow> JWTManager \<Rightarrow> nat \<times> JWTManager" where
  "refreshAccessToken cfg s =
     (case refreshPromise s of
        Some p \<Rightarrow> (p, s)
      | None \<Rightarrow>
          (let p = next_promise s in
           (p, s\<lparr>fetches := fetches s @ [refresh_call cfg],
                 outstanding := outstanding s @ [p],
                 next_promise := Suc p,
                 refreshPromise := Some p\<rparr>)))"

definition refresh_failed :: "error \<Rightarrow> error" where
  "refresh_failed e = TokenRefreshError ''Failed to refresh access token'' e"

definition invalid_received :: error where
  "invalid_received = Error ''Invalid access token received from refresh endpoint''"

text \<open>
  \<open>performTokenRefresh\<close> from the moment its call of \<open>fetch\<close> has settled; the response
  and the reading of its body are taken in one step.
\<close>

definition performTokenRefresh ::
  "JWTManagerConfig \<Rightarrow> fetch_result \<Rightarrow> JWTManager \<Rightarrow> (error + JWTToken) \<times> JWTManager" where
  "performTokenRefresh cfg outcome s =
     (case outcome of
        Rejects e \<Rightarrow> (Inl (refresh_failed e), s)
      | Resolves response \<Rightarrow>
          if \<not> resp_ok response then
            (Inl (refresh_failed
                   (Error (''HTTP '' @ show_nat (resp_status response) @ '': ''
                           @ resp_statusText response))),
             if resp_status response = 401 \<or> resp_status response = 403
             then notify OnAuthFailure (clearAccessToken s)
             else s)
          else
            (case resp_json response of
               Inl e \<Rightarrow> (Inl (refresh_failed e), s)
             | Inr d \<Rightarrow>
                 (case extractAccessToken (refreshConfig cfg) (clock s) d of
                    Inl e \<Rightarrow> (Inl (refresh_failed e), s)
                  | Inr None \<Rightarrow> (Inl (refresh_failed invalid_received), s)
                  | Inr (Some newAccessToken) \<Rightarrow>
                      if \<not> isValidJWTFormat (JStr (token newAccessToken))
                      then (Inl (refresh_failed invalid_received), s)
                      else (Inr newAccessToken, s))))"

text \<open>
  The handler that a timer puts on the promise of its refresh:
  \<open>.catch(error => console.warn(..., error))\<close>. The first component is what the promise
  returned by \<open>catch\<close> settles to.
\<close>

definition scheduled_catch ::
  "error + JWTToken \<Rightarrow> JWTManager \<Rightarrow> (error + unit) \<times> JWTManager" where
  "scheduled_catch r s =
     (case r of
        Inl e \<Rightarrow> (Inr (), s\<lparr>warnings := warnings s @ [e]\<rparr>)
      | Inr t \<Rightarrow> (Inr (), s))"

text \<open>A promise settles: its outcome is fixed, and the handlers put on it run.\<close>

definition run_handler :: "nat \<Rightarrow> error + JWTToken \<Rightarrow> nat \<Rightarrow> JWTManager \<Rightarrow> JWTManager" where
  "run_handler p r q s = (if q = p then snd (scheduled_catch r s) else s)"

definition settle_promise :: "nat \<Rightarrow> error + JWTToken \<Rightarrow> JWTManager \<Rightarrow> JWTManager" where
  "settle_promise p r s =
     fold (run_handler p r) (catching s)
       (s\<lparr>settled := (settled s)(p \<mapsto> r), catching := filter (\<lambda>q. q \<noteq> p) (catching s)\<rparr>)"

definition as_refresh_error :: "error \<Rightarrow> error" where
  "as_refresh_error e =
     (case e of
        TokenRefreshError m cause \<Rightarrow> e
      | _ \<Rightarrow> TokenRefreshError ''Token refresh failed'' e)"

text \<open>
  The rest of the asynchronous function of \<open>refreshAccessToken\<close>, for the promise \<open>p\<close>,
  when the network call settles at time \<open>fst x\<close> with \<open>snd x\<close>: the \<open>try\<close>, the \<open>catch\<close>
  and the \<open>finally\<close>, then the settling of \<open>p\<close>.
\<close>

definition refresh_settle ::
  "host \<Rightarrow> JWTManagerConfig \<Rightarrow> nat \<Rightarrow> int \<times> fetch_result \<Rightarrow> JWTManager
     \<Rightarrow> (error + JWTToken) \<times> JWTManager" where
  "refresh_settle h cfg p x s0 =
     (let s = s0\<lparr>clock := fst x, outstanding := removeAll p (outstanding s0)\<rparr> in
      case performTokenRefresh cfg (snd x) s of
        (Inr newToken, s1) \<Rightarrow>
          (let s2 = snd (setAccessToken h cfg (TokenObject newToken) s1);
               s3 = notify (OnTokenRefresh newToken) s2
           in (Inr newToken, settle_promise p (Inr newToken) (s3\<lparr>refreshPromise := None\<rparr>)))
      | (Inl e, s1) \<Rightarrow>
          (let refreshError = as_refresh_error e;
               s2 = notify (OnTokenRefreshError refreshError) s1
           in (Inl refreshError, settle_promise p (Inl refreshError) (s2\<lparr>refreshPromise := None\<rparr>))))"

text \<open>
  An armed timer fires: it is armed no more, and its callback calls
  \<open>refreshAccessToken\<close> and puts its handler on the promise. The handle stays in
  \<open>refreshTimeoutId\<close>.
\<close>

definition timer_fires :: "JWTManagerConfig \<Rightarrow> nat \<Rightarrow> JWTManager \<Rightarrow> JWTManager" where
  "timer_fires cfg t s =
     (case refreshAccessToken cfg (s\<lparr>timers := filter (\<lambda>x. fst x \<noteq> t) (timers s)\<rparr>) of
        (p, s1) \<Rightarrow> s1\<lparr>catching := catching s1 @ [p]\<rparr>)"

subsection \<open>Asynchronous methods run against a list of network outcomes\<close>

text \<open>
  \<open>getAccessToken\<close> and \<open>request\<close> suspend at network calls. They are run here with
  nothing else calling the manager meanwhile, against the outcomes the network will
  produce, in order, each with the time at which it is produced (as the tests queue the
  results of their mock of \<open>fetch\<close>). When the outcomes run out the method stays
  \<open>Pending\<close>.
\<close>

type_synonym network = "(int \<times> fetch_result) list"

datatype 'a outcome = Pending | Threw error | Returned 'a

definition await_fetch ::
  "fetch_call \<Rightarrow> network \<Rightarrow> JWTManager \<Rightarrow> fetch_result option \<times> network \<times> JWTManager" where
  "await_fetch c net s =
     (let s1 = s\<lparr>fetches := fetches s @ [c]\<rparr> in
      case net of
        [] \<Rightarrow> (None, [], s1)
      | x # rest \<Rightarrow> (Some (snd x), rest, s1\<lparr>clock := fst x\<rparr>))"

text \<open>
  \<open>await this.refreshAccessToken()\<close>: the next outcome settles the network call of the
  promise, whether this call started it or found it outstanding.
\<close>

definition await_refresh ::
  "host \<Rightarrow> JWTManagerConfig \<Rightarrow> network \<Rightarrow> JWTManager
     \<Rightarrow> (error + JWTToken) option \<times> network \<times> JWTManager" where
  "await_refresh h cfg net s =
     (case refreshAccessToken cfg s of
        (p, s1) \<Rightarrow>
          (case net of
             [] \<Rightarrow> (None, [], s1)
           | x # rest \<Rightarrow>
               (case refresh_settle h cfg p x s1 of
                  (r, s2) \<Rightarrow> (Some r, rest, s2))))"

definition refresh_or_fail ::
  "host \<Rightarrow> JWTManagerConfig \<Rightarrow> string \<Rightarrow> network \<Rightarrow> JWTManager
     \<Rightarrow> string outcome \<times> network \<times> JWTManager" where
  "refresh_or_fail h cfg msg net s =
     (case await_refresh h cfg net s of
        (None, net1, s1) \<Rightarrow> (Pending, net1, s1)
      | (Some (Inl e), net1, s1) \<Rightarrow> (Threw (NoValidTokenError msg), net1, s1)
      | (Some (Inr newToken), net1, s1) \<Rightarrow> (Returned (token newToken), net1, s1))"

definition getAccessToken ::
  "host \<Rightarrow> JWTManagerConfig \<Rightarrow> network \<Rightarrow> JWTManager
     \<Rightarrow> string outcome \<times> network \<times> JWTManager" where
  "getAccessToken h cfg net s =
     (case accessToken s of
        None \<Rightarrow> refresh_or_fail h cfg ''No access token available and refresh failed'' net s
      | Some t \<Rightarrow>
          if isTokenExpired (clock s) t (refreshBuffer cfg)
          then refresh_or_fail h cfg ''Access token expired and refresh failed'' net s
          else (Returned (token t), net, s))"

text \<open>What the inner \<open>catch\<close> of \<open>request\<close> does to the manager, and what its outer one throws.\<close>

definition auth_required :: "JWTManager \<Rightarrow> JWTManager" where
  "auth_required s = notify OnAuthFailure (clearAccessToken s)"

definition request_failed :: "error \<Rightarrow> error" where
  "request_failed e =
     (case e of
        NoValidTokenError m \<Rightarrow> e
      | _ \<Rightarrow> Error (''Request failed: '' @ error_to_string e))"

definition bearer :: "string \<Rightarrow> string" where
  "bearer tok = ''Bearer '' @ tok"

text \<open>
  The inner \<open>try\<close> of \<open>request\<close>, entered on a response with status 401, with its
  \<open>catch\<close>: the refresh, the request sent again with the new token, the reading of the
  body. \<open>hdrs\<close> are the headers of the first attempt.
\<close>

definition retry_after_refresh ::
  "host \<Rightarrow> JWTManagerConfig \<Rightarrow> RequestConfig \<Rightarrow> (string \<rightharpoonup> string) \<Rightarrow> network \<Rightarrow> JWTManager
     \<Rightarrow> AuthenticatedResponse outcome \<times> network \<times> JWTManager" where
  "retry_after_refresh h cfg config hdrs net s =
     (case await_refresh h cfg net s of
        (None, net1, s1) \<Rightarrow> (Pending, net1, s1)
      | (Some (Inl refreshError), net1, s1) \<Rightarrow>
          (Threw (NoValidTokenError ''Authentication required''), net1, auth_required s1)
      | (Some (Inr newAccessToken), net1, s1) \<Rightarrow>
          (case await_fetch
                  (request_call h config
                     (hdrs(''Authorization'' \<mapsto> bearer (token newAccessToken))))
                  net1 s1 of
             (None, net2, s2) \<Rightarrow> (Pending, net2, s2)
           | (Some (Rejects e), net2, s2) \<Rightarrow>
               (Threw (NoValidTokenError ''Authentication required''), net2, auth_required s2)
           | (Some (Resolves retryResponse), net2, s2) \<Rightarrow>
               (case read_body retryResponse of
                  Inl e \<Rightarrow>
                    (Threw (NoValidTokenError ''Authentication required''), net2, auth_required s2)
                | Inr retryData \<Rightarrow>
                    (Returned (respond retryResponse retryData), net2, s2))))"

text \<open>
  \<open>request\<close>: the token, which is obtained outside the outer \<open>try\<close>; the first attempt;
  on status 401 the inner \<open>try\<close>, whose error goes through the outer \<open>catch\<close>.
\<close>

definition request ::
  "host \<Rightarrow> JWTManagerConfig \<Rightarrow> RequestConfig \<Rightarrow> network \<Rightarrow> JWTManager
     \<Rightarrow> AuthenticatedResponse outcome \<times> network \<times> JWTManager" where
  "request h cfg config net s =
     (case getAccessToken h cfg net s of
        (Pending, net1, s1) \<Rightarrow> (Pending, net1, s1)
      | (Threw e, net1, s1) \<Rightarrow> (Threw e, net1, s1)
      | (Returned accessTok, net1, s1) \<Rightarrow>
          (let hdrs = spread [''Authorization'' \<mapsto> bearer accessTok] (headers config) in
           case await_fetch (request_call h config hdrs) net1 s1 of
             (None, net2, s2) \<Rightarrow> (Pending, net2, s2)
           | (Some (Rejects e), net2, s2) \<Rightarrow> (Threw (request_failed e), net2, s2)
           | (Some (Resolves response), net2, s2) \<Rightarrow>
               if resp_status response = 401 then
                 (case retry_after_refresh h cfg config hdrs net2 s2 of
                    (Pending, net3, s3) \<Rightarrow> (Pending, net3, s3)
                  | (Threw e, net3, s3) \<Rightarrow> (Threw (request_failed e), net3, s3)
                  | (Returned r, net3, s3) \<Rightarrow> (Returned r, net3, s3))
               else
                 (case read_body response of
                    Inl e \<Rightarrow> (Threw (request_failed e), net2, s2)
                  | Inr d \<Rightarrow> (Returned (respond response d), net2, s2))))"

subsection \<open>Events\<close>

text \<open>
  What can happen to a manager, one event after the other: a call of one of its methods,
  an armed timer firing, the network call of an outstanding refresh settling, time
  passing. The host fires only timers that are armed and settles only calls that are
  outstanding. \<open>GetAccessToken\<close> and \<open>Request\<close> run against the outcomes they carry;
  what they do to the manager when other events come in between is what
  \<open>RefreshAccessToken\<close>, \<open>FetchSettles\<close> and \<open>ClearAccessToken\<close> do.
\<close>

datatype event =
    SetAccessToken token_input
  | ClearAccessToken
  | Destroy
  | RefreshAccessToken
  | GetAccessToken network
  | Request RequestConfig network
  | TimerFires nat
  | FetchSettles nat int fetch_result
  | ClockAdvances int

fun step :: "host \<Rightarrow> JWTManagerConfig \<Rightarrow> JWTManager \<Rightarrow> event \<Rightarrow> JWTManager" where
  "step h cfg s (SetAccessToken input) = snd (setAccessToken h cfg input s)"
| "step h cfg s ClearAccessToken = clearAccessToken s"
| "step h cfg s Destroy = destroy s"
| "step h cfg s RefreshAccessToken = snd (refreshAccessToken cfg s)"
| "step h cfg s (GetAccessToken net) = snd (snd (getAccessToken h cfg net s))"
| "step h cfg s (Request config net) = snd (snd (request h cfg config net s))"
| "step h cfg s (TimerFires t) =
     (if t \<in> fst ` set (timers s) then timer_fires cfg t s else s)"
| "step h cfg s (FetchSettles p t r) =
     (if p \<in> set (outstanding s) then snd (refresh_settle h cfg p (t, r) s) else s)"
| "step h cfg s (ClockAdvances t) = s\<lparr>clock := t\<rparr>"

definition run :: "host \<Rightarrow> JWTManagerConfig \<Rightarrow> event list \<Rightarrow> JWTManager \<Rightarrow> JWTManager" where
  "run h cfg evs s = foldl (step h cfg) s evs"

subsection \<open>Properties of states and of outcomes\<close>

text \<open>
  At most one timer is armed; an armed timer is the one whose handle the manager holds,
  and its handle is older than the next one.
\<close>

definition one_timer :: "JWTManager \<Rightarrow> bool" where
  "one_timer s =
     (length (timers s) \<le> 1 \<and>
      list_all (\<lambda>t. refreshTimeoutId s = Some (fst t) \<and> fst t < next_timer s) (timers s))"

text \<open>The current token is absent or has three segments, none of them empty.\<close>

definition token_well_formed :: "JWTManager \<Rightarrow> bool" where
  "token_well_formed s =
     (case accessToken s of None \<Rightarrow> True | Some t \<Rightarrow> isValidJWTFormat (JStr (token t)))"

text \<open>An event that does not hand the manager a token object with a malformed string.\<close>

fun well_formed_input :: "event \<Rightarrow> bool" where
  "well_formed_input (SetAccessToken (TokenObject t)) = isValidJWTFormat (JStr (token t))"
| "well_formed_input e = True"

text \<open>\<open>n\<close> calls of \<open>refreshAccessToken\<close> in a row, and the promises they return.\<close>

fun refresh_calls :: "JWTManagerConfig \<Rightarrow> nat \<Rightarrow> JWTManager \<Rightarrow> nat list \<times> JWTManager" where
  "refresh_calls cfg 0 s = ([], s)"
| "refresh_calls cfg (Suc n) s =
     (case refreshAccessToken cfg s of
        (p, s1) \<Rightarrow> (case refresh_calls cfg n s1 of (ps, s2) \<Rightarrow> (p # ps, s2)))"

text \<open>
  What \<open>performTokenRefresh\<close> returns or throws when its network call settles at time
  \<open>now\<close> with \<open>r\<close>, and whether \<open>r\<close> is a response with status 401 or 403.
\<close>

definition refresh_result :: "JWTManagerConfig \<Rightarrow> int \<Rightarrow> fetch_result \<Rightarrow> error + JWTToken" where
  "refresh_result cfg now r = fst (performTokenRefresh cfg r (new_manager now))"

definition auth_rejected :: "fetch_result \<Rightarrow> bool" where
  "auth_rejected r =
     (case r of
        Rejects e \<Rightarrow> False
      | Resolves response \<Rightarrow>
          \<not> resp_ok response \<and> (resp_status response = 401 \<or> resp_status response = 403))"

subsection \<open>A host, a configuration and responses to compute with\<close>

text \<open>
  A host that decodes three payloads, a configuration whose \<open>extractAccessToken\<close> is the
  one of the tests (\<open>access_token\<close> and \<open>expires_in\<close> of the body), and some responses.
\<close>

definition example_host :: host where
  \<open>example_host =
     \<lparr>atob = (\<lambda>s. if s = ''eyJleHAiOjB9'' then Inr ''{"exp":0}''
                 else if s = ''eyJleHAiOjE3MDAwMDAwMDB9'' then Inr ''{"exp":1700000000}''
                 else if s = ''eyJzdWIiOiJ1c2VyMTIzIn0='' then Inr ''{"sub":"user123"}''
                 else Inl (Error ''The string to be decoded is not correctly encoded.'')),
      JSON_parse = (\<lambda>s. if s = ''{"exp":0}'' then Inr (JObj [(''exp'', JNum 0)])
                 else if s = ''{"exp":1700000000}'' then Inr (JObj [(''exp'', JNum 1700000000)])
                 else if s = ''{"sub":"user123"}'' then Inr (JObj [(''sub'', JStr ''user123'')])
                 else Inl (Error ''Unexpected token'')),
      coerce = (\<lambda>v. NaN),
      JSON_stringify = (\<lambda>v. ''{}'')\<rparr>\<close>

definition example_extract :: "int \<Rightarrow> js_value \<Rightarrow> error + JWTToken option" where
  "example_extract now d =
     (case d of
        JObj ps \<Rightarrow>
          (case map_of ps ''access_token'' of
             Some (JStr tok) \<Rightarrow>
               (case map_of ps ''expires_in'' of
                  Some (JNum n) \<Rightarrow> Inr (Some \<lparr>token = tok, expiresAt = Num (now + n * 1000)\<rparr>)
                | _ \<Rightarrow> Inr (Some \<lparr>token = tok, expiresAt = NaN\<rparr>))
           | _ \<Rightarrow> Inr None)
      | _ \<Rightarrow> Inl (TypeError ''Cannot read properties''))"

definition example_config :: JWTManagerConfig where
  "example_config =
     \<lparr>refreshConfig =
        \<lparr>refresh_url = ''https://api.example.com/auth/refresh'',
         refresh_method = None,
         refresh_headers = None,
         extractAccessToken = example_extract\<rparr>,
      refreshBuffer = 6000\<rparr>"

definition example_request :: RequestConfig where
  "example_request =
     \<lparr>url = ''https://api.example.com/data'',
      req_method = None,
      headers = None,
      body = JUndefined,
      options = \<lparr>opt_method = None, opt_headers = None, opt_body = None, opt_credentials = None\<rparr>\<rparr>"

text \<open>The same request with an \<open>Authorization\<close> header of the caller's own.\<close>

definition authorized_request :: RequestConfig where
  "authorized_request = example_request\<lparr>headers := Some [''Authorization'' \<mapsto> ''Basic Zm9v'']\<rparr>"

definition example_token :: JWTToken where
  "example_token = \<lparr>token = ''header.payload.signature'', expiresAt = Num 3600000\<rparr>"

text \<open>A manager that was given \<open>example_token\<close> at time 0.\<close>

definition example_manager :: JWTManager where
  "example_manager =
     snd (setAccessToken example_host example_config (TokenObject example_token) (new_manager 0))"

definition refreshed :: Response where
  "refreshed =
     \<lparr>resp_ok = True, resp_status = 200, resp_statusText = ''OK'',
      resp_headers = [''content-type'' \<mapsto> ''application/json''],
      resp_json = Inr (JObj [(''access_token'', JStr ''new.access.token''), (''expires_in'', JNum 3600)]),
      resp_text = Inr []\<rparr>"

definition unauthorized :: Response where
  "unauthorized =
     \<lparr>resp_ok = False, resp_status = 401, resp_statusText = ''Unauthorized'',
      resp_headers = Map.empty,
      resp_json = Inl (Error ''Unexpected end of JSON input''),
      resp_text = Inr []\<rparr>"

definition served :: Response where
  "served =
     \<lparr>resp_ok = True, resp_status = 200, resp_statusText = ''OK'',
      resp_headers = [''content-type'' \<mapsto> ''application/json''],
      resp_json = Inr (JObj [(''data'', JStr ''test'')]),
      resp_text = Inr []\<rparr>"

section \<open>The codec: segments and expiration\<close>

subsection \<open>Splitting\<close>

lemma js_split_not_Nil: "js_split sep s \<noteq> []"
  by (induction s) (auto split: list.splits)

lemma js_split_no_sep: "sep \<notin> set a \<Longrightarrow> js_split sep a = [a]"
  by (induction a) auto

lemma js_split_append: "sep \<notin> set a \<Longrightarrow> js_split sep (a @ sep # rest) = a # js_split sep rest"
  by (induction a) auto

lemma js_split_Cons:
  "js_split sep s = p # ps \<Longrightarrow>
     sep \<notin> set p \<and> (if ps = [] then s = p else \<exists>rest. s = p @ sep # rest \<and> js_split sep rest = ps)"
proof (induction s arbitrary: p ps)
  case Nil
  then show ?case by simp
next
  case (Cons c cs)
  show ?case
  proof (cases "c = sep")
    case True
    with Cons.prems show ?thesis by (auto simp: js_split_not_Nil)
  next
    case False
    then obtain q qs where q: "js_split sep cs = q # qs"
      using js_split_not_Nil[of sep cs] by (cases "js_split sep cs") auto
    with False Cons.prems have p: "p = c # q" "ps = qs" by auto
    from Cons.IH[OF q] False p show ?thesis by auto
  qed
qed

lemma js_split_three:
  "js_split sep s = [a, b, c] \<longleftrightarrow>
     s = a @ sep # b @ sep # c \<and> sep \<notin> set a \<and> sep \<notin> set b \<and> sep \<notin> set c"
proof
  assume h: "js_split sep s = [a, b, c]"
  from js_split_Cons[OF h] obtain r1 where r1: "s = a @ sep # r1" "js_split sep r1 = [b, c]" "sep \<notin> set a"
    by auto
  from js_split_Cons[OF r1(2)] obtain r2 where r2: "r1 = b @ sep # r2" "js_split sep r2 = [c]" "sep \<notin> set b"
    by auto
  from js_split_Cons[OF r2(2)] have "r2 = c" "sep \<notin> set c" by auto
  with r1 r2 show "s = a @ sep # b @ sep # c \<and> sep \<notin> set a \<and> sep \<notin> set b \<and> sep \<notin> set c"
    by simp
next
  assume "s = a @ sep # b @ sep # c \<and> sep \<notin> set a \<and> sep \<notin> set b \<and> sep \<notin> set c"
  then show "js_split sep s = [a, b, c]"
    by (simp add: js_split_append js_split_no_sep)
qed

lemma length_three: "length xs = 3 \<longleftrightarrow> (\<exists>a b c. xs = [a, b, c])"
  by (auto simp: numeral_3_eq_3 length_Suc_conv)

lemma isValidJWTFormat_JStr:
  "isValidJWTFormat (JStr s) \<longleftrightarrow>
     length (js_split CHR ''.'' s) = 3 \<and> (\<forall>part \<in> set (js_split CHR ''.'' s). 0 < length part)"
proof (cases "s = []")
  case True
  then show ?thesis by (simp add: isValidJWTFormat_def)
next
  case False
  then show ?thesis by (simp add: isValidJWTFormat_def Let_def list_all_iff)
qed

lemma isValidJWTFormat_segments:
  "isValidJWTFormat (JStr s) \<longleftrightarrow>
     (\<exists>a b c. s = a @ ''.'' @ b @ ''.'' @ c \<and> a \<noteq> [] \<and> b \<noteq> [] \<and> c \<noteq> []
        \<and> CHR ''.'' \<notin> set a \<and> CHR ''.'' \<notin> set b \<and> CHR ''.'' \<notin> set c)"
  (is "?l \<longleftrightarrow> ?r")
proof
  assume ?l
  then obtain a b c where abc: "js_split CHR ''.'' s = [a, b, c]"
    and ne: "\<forall>part \<in> set (js_split CHR ''.'' s). 0 < length part"
    unfolding isValidJWTFormat_JStr length_three by blast
  from abc have "s = a @ CHR ''.'' # b @ CHR ''.'' # c \<and> CHR ''.'' \<notin> set a \<and> CHR ''.'' \<notin> set b \<and> CHR ''.'' \<notin> set c"
    using js_split_three[of "CHR ''.''" s a b c] by blast
  moreover from ne abc have "a \<noteq> [] \<and> b \<noteq> [] \<and> c \<noteq> []" by simp
  ultimately show ?r by auto
next
  assume ?r
  then obtain a b c where s: "s = a @ CHR ''.'' # b @ CHR ''.'' # c"
    and ne: "a \<noteq> []" "b \<noteq> []" "c \<noteq> []"
    and dots: "CHR ''.'' \<notin> set a" "CHR ''.'' \<notin> set b" "CHR ''.'' \<notin> set c"
    by auto
  from s dots have "js_split CHR ''.'' s = [a, b, c]"
    using js_split_three[of "CHR ''.''" s a b c] by blast
  with ne show ?l by (simp add: isValidJWTFormat_JStr)
qed

lemma isValidJWTFormat_not_string: "isValidJWTFormat v \<Longrightarrow> \<exists>s. v = JStr s"
  by (cases v) (simp_all add: isValidJWTFormat_def)

text \<open>
  Claim C8. \<open>isValidJWTFormat\<close> is true exactly of the strings that split on the period
  into three segments of positive length, that is, of the strings made of three
  non-empty parts without a period, joined by periods. It is false of the empty string,
  of \<open>null\<close> and of \<open>undefined\<close>; it is a total function and throws on no input.
\<close>

theorem isValidJWTFormat_three_segments:
  "(isValidJWTFormat v \<longleftrightarrow>
      (\<exists>s. v = JStr s \<and> length (js_split CHR ''.'' s) = 3
          \<and> (\<forall>part \<in> set (js_split CHR ''.'' s). 0 < length part)))
   \<and> (isValidJWTFormat v \<longleftrightarrow>
      (\<exists>a b c. v = JStr (a @ ''.'' @ b @ ''.'' @ c) \<and> a \<noteq> [] \<and> b \<noteq> [] \<and> c \<noteq> []
          \<and> CHR ''.'' \<notin> set a \<and> CHR ''.'' \<notin> set b \<and> CHR ''.'' \<notin> set c))
   \<and> \<not> isValidJWTFormat (JStr [])
   \<and> \<not> isValidJWTFormat JNull
   \<and> \<not> isValidJWTFormat JUndefined"
proof (intro conjI)
  show "isValidJWTFormat v \<longleftrightarrow>
      (\<exists>s. v = JStr s \<and> length (js_split CHR ''.'' s) = 3
          \<and> (\<forall>part \<in> set (js_split CHR ''.'' s). 0 < length part))"
    using isValidJWTFormat_not_string[of v] isValidJWTFormat_JStr by blast
  show "isValidJWTFormat v \<longleftrightarrow>
      (\<exists>a b c. v = JStr (a @ ''.'' @ b @ ''.'' @ c) \<and> a \<noteq> [] \<and> b \<noteq> [] \<and> c \<noteq> []
          \<and> CHR ''.'' \<notin> set a \<and> CHR ''.'' \<notin> set b \<and> CHR ''.'' \<notin> set c)"
    using isValidJWTFormat_not_string[of v] isValidJWTFormat_segments by blast
qed (simp_all add: isValidJWTFormat_def)

text \<open>The theorem at a token of three segments, at one with an empty segment and at one of two segments.\<close>

theorem isValidJWTFormat_three_segments_witness:
  "isValidJWTFormat (JStr ''header.payload.signature'')
   \<and> \<not> isValidJWTFormat (JStr ''header..signature'')
   \<and> \<not> isValidJWTFormat (JStr ''header.payload'')"
proof (intro conjI)
  have "\<exists>a b c. JStr ''header.payload.signature'' = JStr (a @ ''.'' @ b @ ''.'' @ c)
          \<and> a \<noteq> [] \<and> b \<noteq> [] \<and> c \<noteq> []
          \<and> CHR ''.'' \<notin> set a \<and> CHR ''.'' \<notin> set b \<and> CHR ''.'' \<notin> set c"
    by (rule exI[of _ "''header''"], rule exI[of _ "''payload''"], rule exI[of _ "''signature''"]) simp
  then show "isValidJWTFormat (JStr ''header.payload.signature'')"
    using isValidJWTFormat_three_segments[of "JStr ''header.payload.signature''"] by blast
  have "\<not> (\<exists>s. JStr ''header..signature'' = JStr s \<and> length (js_split CHR ''.'' s) = 3
          \<and> (\<forall>part \<in> set (js_split CHR ''.'' s). 0 < length part))"
    by simp
  then show "\<not> isValidJWTFormat (JStr ''header..signature'')"
    using isValidJWTFormat_three_segments[of "JStr ''header..signature''"] by blast
  have "\<not> (\<exists>s. JStr ''header.payload'' = JStr s \<and> length (js_split CHR ''.'' s) = 3
          \<and> (\<forall>part \<in> set (js_split CHR ''.'' s). 0 < length part))"
    by simp
  then show "\<not> isValidJWTFormat (JStr ''header.payload'')"
    using isValidJWTFormat_three_segments[of "JStr ''header.payload''"] by blast
qed

subsection \<open>Expiration\<close>

lemma getTokenExpiration_claims:
  assumes "decodeJWT h tok = Inr (JObj claims)"
  shows "getTokenExpiration h tok =
     (case map_of claims ''exp'' of
        None \<Rightarrow> Inl (Error ''Token does not contain expiration time'')
      | Some v \<Rightarrow> if truthy v then Inr (js_times (ToNumber h v) 1000)
                  else Inl (Error ''Token does not contain expiration time''))"
  using assms by (simp add: getTokenExpiration_def split: option.splits)

lemma example_decode_1700000000:
  "decodeJWT example_host ''eyJhbGciOiJIUzI1NiJ9.eyJleHAiOjE3MDAwMDAwMDB9.signature''
     = Inr (JObj [(''exp'', JNum 1700000000)])"
  by (simp add: decodeJWT_def example_host_def replace_all_def Let_def)

lemma example_decode_0:
  "decodeJWT example_host ''eyJhbGciOiJIUzI1NiJ9.eyJleHAiOjB9.signature''
     = Inr (JObj [(''exp'', JNum 0)])"
  by (simp add: decodeJWT_def example_host_def replace_all_def Let_def)

lemma example_decode_sub:
  "decodeJWT example_host ''eyJhbGciOiJIUzI1NiJ9.eyJzdWIiOiJ1c2VyMTIzIn0=.signature''
     = Inr (JObj [(''sub'', JStr ''user123'')])"
  by (simp add: decodeJWT_def example_host_def replace_all_def Let_def)

text \<open>
  Away from zero the codec converts the expiration claim as documented. When the payload
  of a token decodes to a claims map whose expiration claim is a number \<open>E\<close> other than
  zero, \<open>createJWTToken\<close> returns the token with \<open>expiresAt = E * 1000\<close>, and with buffer
  0 that token is expired exactly when the clock has reached \<open>E * 1000\<close>. When the claims
  map has no expiration claim, \<open>createJWTToken\<close> fails with the error of the missing
  expiration.
\<close>

lemma createJWTToken_expiration:
  "decodeJWT h tok = Inr (JObj claims) \<Longrightarrow>
     (map_of claims ''exp'' = Some (JNum E) \<and> E \<noteq> 0 \<longrightarrow>
        createJWTToken h tok = Inr \<lparr>token = tok, expiresAt = Num (E * 1000)\<rparr>
        \<and> (\<forall>now. isTokenExpired now \<lparr>token = tok, expiresAt = Num (E * 1000)\<rparr> 0 \<longleftrightarrow> E * 1000 \<le> now))
     \<and> (map_of claims ''exp'' = None \<longrightarrow>
        createJWTToken h tok = Inl (Error ''Token does not contain expiration time''))"
  by (simp add: createJWTToken_def getTokenExpiration_claims isTokenExpired_def)

text \<open>The lemma at a token that expires at 1700000000 seconds and at one without the claim.\<close>

lemma createJWTToken_expiration_examples:
  "createJWTToken example_host ''eyJhbGciOiJIUzI1NiJ9.eyJleHAiOjE3MDAwMDAwMDB9.signature''
     = Inr \<lparr>token = ''eyJhbGciOiJIUzI1NiJ9.eyJleHAiOjE3MDAwMDAwMDB9.signature'',
            expiresAt = Num 1700000000000\<rparr>
   \<and> isTokenExpired 1700000000000
       \<lparr>token = ''eyJhbGciOiJIUzI1NiJ9.eyJleHAiOjE3MDAwMDAwMDB9.signature'',
        expiresAt = Num 1700000000000\<rparr> 0
   \<and> \<not> isTokenExpired 1699999999999
       \<lparr>token = ''eyJhbGciOiJIUzI1NiJ9.eyJleHAiOjE3MDAwMDAwMDB9.signature'',
        expiresAt = Num 1700000000000\<rparr> 0
   \<and> createJWTToken example_host ''eyJhbGciOiJIUzI1NiJ9.eyJzdWIiOiJ1c2VyMTIzIn0=.signature''
     = Inl (Error ''Token does not contain expiration time'')"
  using createJWTToken_expiration[OF example_decode_1700000000, of 1700000000]
        createJWTToken_expiration[OF example_decode_sub, of 0]
  by simp

text \<open>
  Claim C7 is right and the code breaks it at the expiration claim 0. The payload
  \<open>{"exp":0}\<close> carries the claim, a number of seconds, and the claim asks for the token
  with \<open>expiresAt = 0 * 1000\<close>. \<open>getTokenExpiration\<close> means to reject a payload without
  the claim, as the message of its error says, but it tests \<open>!payload.exp\<close>, which is also
  true of 0: \<open>createJWTToken\<close> throws \<open>Token does not contain expiration time\<close> for a
  token that does contain it.
\<close>

theorem createJWTToken_zero_expiration_rejected:
  "decodeJWT example_host ''eyJhbGciOiJIUzI1NiJ9.eyJleHAiOjB9.signature''
     = Inr (JObj [(''exp'', JNum 0)])
   \<and> createJWTToken example_host ''eyJhbGciOiJIUzI1NiJ9.eyJleHAiOjB9.signature''
     = Inl (Error ''Token does not contain expiration time'')
   \<and> createJWTToken example_host ''eyJhbGciOiJIUzI1NiJ9.eyJleHAiOjB9.signature''
     \<noteq> Inr \<lparr>token = ''eyJhbGciOiJIUzI1NiJ9.eyJleHAiOjB9.signature'', expiresAt = Num (0 * 1000)\<rparr>"
  by (simp add: example_decode_0 createJWTToken_def getTokenExpiration_claims)

text \<open>
  Claim C10. When the payload of a token decodes to a claims map in which the expiration
  claim is present and equal to 0, \<open>getTokenExpiration\<close>, and so \<open>createJWTToken\<close>, fails
  with \<open>Token does not contain expiration time\<close>: the claim is tested for truthiness.
\<close>

theorem getTokenExpiration_zero:
  "decodeJWT h tok = Inr (JObj claims) \<Longrightarrow> map_of claims ''exp'' = Some (JNum 0) \<Longrightarrow>
     getTokenExpiration h tok = Inl (Error ''Token does not contain expiration time'')
     \<and> createJWTToken h tok = Inl (Error ''Token does not contain expiration time'')"
  by (simp add: createJWTToken_def getTokenExpiration_claims)

text \<open>The theorem at a token whose payload is \<open>{"exp":0}\<close>.\<close>

theorem getTokenExpiration_zero_witness:
  "getTokenExpiration example_host ''eyJhbGciOiJIUzI1NiJ9.eyJleHAiOjB9.signature''
     = Inl (Error ''Token does not contain expiration time'')
   \<and> createJWTToken example_host ''eyJhbGciOiJIUzI1NiJ9.eyJleHAiOjB9.signature''
     = Inl (Error ''Token does not contain expiration time'')"
  using getTokenExpiration_zero[OF example_decode_0] by simp

section \<open>The manager: what its operations preserve\<close>

subsection \<open>What the primitive operations leave alone\<close>

lemma notify_fields [simp]:
  "accessToken (notify c s) = accessToken s"
  "refreshPromise (notify c s) = refreshPromise s"
  "refreshTimeoutId (notify c s) = refreshTimeoutId s"
  "clock (notify c s) = clock s"
  "timers (notify c s) = timers s"
  "next_timer (notify c s) = next_timer s"
  "next_promise (notify c s) = next_promise s"
  "outstanding (notify c s) = outstanding s"
  "settled (notify c s) = settled s"
  "catching (notify c s) = catching s"
  "fetches (notify c s) = fetches s"
  "callbacks (notify c s) = callbacks s @ [c]"
  "warnings (notify c s) = warnings s"
  by (simp_all add: notify_def)

lemma clearRefreshTimeout_fields [simp]:
  "accessToken (clearRefreshTimeout s) = accessToken s"
  "refreshPromise (clearRefreshTimeout s) = refreshPromise s"
  "refreshTimeoutId (clearRefreshTimeout s) = None"
  "clock (clearRefreshTimeout s) = clock s"
  "next_timer (clearRefreshTimeout s) = next_timer s"
  "next_promise (clearRefreshTimeout s) = next_promise s"
  "outstanding (clearRefreshTimeout s) = outstanding s"
  "settled (clearRefreshTimeout s) = settled s"
  "catching (clearRefreshTimeout s) = catching s"
  "fetches (clearRefreshTimeout s) = fetches s"
  "callbacks (clearRefreshTimeout s) = callbacks s"
  "warnings (clearRefreshTimeout s) = warnings s"
  by (simp_all add: clearRefreshTimeout_def split: option.splits)

lemma run_handlers_fields:
  "accessToken (fold (run_handler p r) qs s) = accessToken s
   \<and> refreshPromise (fold (run_handler p r) qs s) = refreshPromise s
   \<and> refreshTimeoutId (fold (run_handler p r) qs s) = refreshTimeoutId s
   \<and> clock (fold (run_handler p r) qs s) = clock s
   \<and> timers (fold (run_handler p r) qs s) = timers s
   \<and> next_timer (fold (run_handler p r) qs s) = next_timer s
   \<and> next_promise (fold (run_handler p r) qs s) = next_promise s
   \<and> outstanding (fold (run_handler p r) qs s) = outstanding s
   \<and> settled (fold (run_handler p r) qs s) = settled s
   \<and> catching (fold (run_handler p r) qs s) = catching s
   \<and> fetches (fold (run_handler p r) qs s) = fetches s
   \<and> callbacks (fold (run_handler p r) qs s) = callbacks s"
  by (induction qs arbitrary: s) (simp_all add: run_handler_def scheduled_catch_def split: sum.splits)

lemma settle_promise_fields [simp]:
  "accessToken (settle_promise p r s) = accessToken s"
  "refreshPromise (settle_promise p r s) = refreshPromise s"
  "refreshTimeoutId (settle_promise p r s) = refreshTimeoutId s"
  "clock (settle_promise p r s) = clock s"
  "timers (settle_promise p r s) = timers s"
  "next_timer (settle_promise p r s) = next_timer s"
  "next_promise (settle_promise p r s) = next_promise s"
  "outstanding (settle_promise p r s) = outstanding s"
  "settled (settle_promise p r s) = (settled s)(p \<mapsto> r)"
  "catching (settle_promise p r s) = filter (\<lambda>q. q \<noteq> p) (catching s)"
  "fetches (settle_promise p r s) = fetches s"
  "callbacks (settle_promise p r s) = callbacks s"
  by (simp_all add: settle_promise_def run_handlers_fields)

lemma refreshAccessToken_fields [simp]:
  "accessToken (snd (refreshAccessToken cfg s)) = accessToken s"
  "refreshTimeoutId (snd (refreshAccessToken cfg s)) = refreshTimeoutId s"
  "clock (snd (refreshAccessToken cfg s)) = clock s"
  "timers (snd (refreshAccessToken cfg s)) = timers s"
  "next_timer (snd (refreshAccessToken cfg s)) = next_timer s"
  "settled (snd (refreshAccessToken cfg s)) = settled s"
  "catching (snd (refreshAccessToken cfg s)) = catching s"
  "callbacks (snd (refreshAccessToken cfg s)) = callbacks s"
  "warnings (snd (refreshAccessToken cfg s)) = warnings s"
  by (simp_all add: refreshAccessToken_def Let_def split: option.splits)

lemma refreshAccessToken_fresh:
  "refreshPromise s = None \<Longrightarrow>
     refreshAccessToken cfg s =
       (next_promise s,
        s\<lparr>fetches := fetches s @ [refresh_call cfg],
          outstanding := outstanding s @ [next_promise s],
          next_promise := Suc (next_promise s),
          refreshPromise := Some (next_promise s)\<rparr>)"
  by (simp add: refreshAccessToken_def Let_def)

lemma refreshAccessToken_outstanding:
  "refreshPromise s = Some p \<Longrightarrow> refreshAccessToken cfg s = (p, s)"
  by (simp add: refreshAccessToken_def)

subsection \<open>At most one timer\<close>

lemma one_timer_cong:
  "timers s' = timers s \<Longrightarrow> refreshTimeoutId s' = refreshTimeoutId s \<Longrightarrow>
     next_timer s' = next_timer s \<Longrightarrow> one_timer s' = one_timer s"
  by (simp add: one_timer_def)

lemma one_timer_no_timers: "timers s = [] \<Longrightarrow> one_timer s"
  by (simp add: one_timer_def)

lemma one_timer_cases:
  "one_timer s \<Longrightarrow>
     timers s = [] \<or> (\<exists>h d. timers s = [(h, d)] \<and> refreshTimeoutId s = Some h \<and> h < next_timer s)"
  by (cases "timers s") (auto simp: one_timer_def)

lemma clearRefreshTimeout_timers: "one_timer s \<Longrightarrow> timers (clearRefreshTimeout s) = []"
  using one_timer_cases[of s] by (auto simp: clearRefreshTimeout_def split: option.splits)

lemma one_timer_filter: "one_timer s \<Longrightarrow> one_timer (s\<lparr>timers := filter P (timers s)\<rparr>)"
  using one_timer_cases[of s] by (auto simp: one_timer_def)

lemma scheduleTokenRefresh_timers:
  "one_timer s \<Longrightarrow>
     timers (scheduleTokenRefresh cfg s) =
       (case accessToken s of
          None \<Rightarrow> []
        | Some t \<Rightarrow>
            (case js_minus (js_minus (expiresAt t) (clock s)) (refreshBuffer cfg) of
               NaN \<Rightarrow> []
             | Num d \<Rightarrow> if 0 < d then [(next_timer s, d)] else []))"
  by (simp add: scheduleTokenRefresh_def Let_def setTimeout_def clearRefreshTimeout_timers
           split: option.splits number.splits)

lemma scheduleTokenRefresh_one_timer: "one_timer s \<Longrightarrow> one_timer (scheduleTokenRefresh cfg s)"
  by (simp add: scheduleTokenRefresh_def Let_def setTimeout_def clearRefreshTimeout_timers
        one_timer_def split: option.splits number.splits)

lemma scheduleTokenRefresh_fields [simp]:
  "accessToken (scheduleTokenRefresh cfg s) = accessToken s"
  "refreshPromise (scheduleTokenRefresh cfg s) = refreshPromise s"
  "clock (scheduleTokenRefresh cfg s) = clock s"
  "next_promise (scheduleTokenRefresh cfg s) = next_promise s"
  "outstanding (scheduleTokenRefresh cfg s) = outstanding s"
  "settled (scheduleTokenRefresh cfg s) = settled s"
  "catching (scheduleTokenRefresh cfg s) = catching s"
  "fetches (scheduleTokenRefresh cfg s) = fetches s"
  "callbacks (scheduleTokenRefresh cfg s) = callbacks s"
  "warnings (scheduleTokenRefresh cfg s) = warnings s"
  by (simp_all add: scheduleTokenRefresh_def Let_def setTimeout_def split: option.splits number.splits)

lemma setAccessToken_one_timer: "one_timer s \<Longrightarrow> one_timer (snd (setAccessToken h cfg input s))"
  by (auto simp: setAccessToken_def one_timer_cong[of "s\<lparr>accessToken := x\<rparr>" s for x]
           intro!: scheduleTokenRefresh_one_timer split: token_input.splits sum.splits)

lemma clearAccessToken_one_timer: "one_timer s \<Longrightarrow> one_timer (clearAccessToken s)"
  by (simp add: clearAccessToken_def one_timer_no_timers clearRefreshTimeout_timers)

lemma destroy_one_timer: "one_timer s \<Longrightarrow> one_timer (destroy s)"
  by (simp add: destroy_def one_timer_no_timers clearRefreshTimeout_timers)

lemma refreshAccessToken_one_timer: "one_timer s \<Longrightarrow> one_timer (snd (refreshAccessToken cfg s))"
  by (simp add: one_timer_cong[of "snd (refreshAccessToken cfg s)" s])

lemma performTokenRefresh_one_timer:
  "one_timer s \<Longrightarrow> one_timer (snd (performTokenRefresh cfg r s))"
  by (auto simp: performTokenRefresh_def one_timer_cong[of "notify c s'" s' for c s']
           intro!: clearAccessToken_one_timer split: fetch_result.splits sum.splits option.splits)

lemma refresh_settle_one_timer:
  assumes "one_timer s"
  shows "one_timer (snd (refresh_settle h cfg p x s))"
proof -
  let ?s = "s\<lparr>clock := fst x, outstanding := removeAll p (outstanding s)\<rparr>"
  have 0: "one_timer ?s" using assms by (simp add: one_timer_def)
  obtain r s1 where p: "performTokenRefresh cfg (snd x) ?s = (r, s1)" by force
  with performTokenRefresh_one_timer[OF 0, of cfg "snd x"] have 1: "one_timer s1" by simp
  show ?thesis
  proof (cases r)
    case (Inl e)
    have "one_timer (settle_promise p (Inl (as_refresh_error e))
            ((notify (OnTokenRefreshError (as_refresh_error e)) s1)\<lparr>refreshPromise := None\<rparr>))"
      using 1 by (simp add: one_timer_def)
    with p Inl show ?thesis by (simp add: refresh_settle_def Let_def)
  next
    case (Inr newToken)
    have "one_timer (snd (setAccessToken h cfg (TokenObject newToken) s1))"
      using 1 by (rule setAccessToken_one_timer)
    then have "one_timer (settle_promise p (Inr newToken)
            ((notify (OnTokenRefresh newToken) (snd (setAccessToken h cfg (TokenObject newToken) s1)))
               \<lparr>refreshPromise := None\<rparr>))"
      by (simp add: one_timer_def)
    with p Inr show ?thesis by (simp add: refresh_settle_def Let_def)
  qed
qed

lemma timer_fires_one_timer: "one_timer s \<Longrightarrow> one_timer (timer_fires cfg t s)"
proof -
  assume "one_timer s"
  then have a: "one_timer (s\<lparr>timers := filter (\<lambda>x. fst x \<noteq> t) (timers s)\<rparr>)" by (rule one_timer_filter)
  obtain p s1 where r: "refreshAccessToken cfg (s\<lparr>timers := filter (\<lambda>x. fst x \<noteq> t) (timers s)\<rparr>) = (p, s1)"
    by force
  with refreshAccessToken_one_timer[OF a, of cfg] have "one_timer s1" by simp
  then have "one_timer (s1\<lparr>catching := catching s1 @ [p]\<rparr>)" by (simp add: one_timer_def)
  with r show ?thesis by (simp add: timer_fires_def)
qed

subsection \<open>A well-formed current token\<close>

lemma token_well_formed_cong:
  "accessToken s' = accessToken s \<Longrightarrow> token_well_formed s' = token_well_formed s"
  by (simp add: token_well_formed_def)

lemma token_well_formed_absent: "accessToken s = None \<Longrightarrow> token_well_formed s"
  by (simp add: token_well_formed_def)

lemma createJWTToken_token: "createJWTToken h tok = Inr t \<Longrightarrow> token t = tok"
  by (auto simp: createJWTToken_def split: sum.splits)

lemma setAccessToken_string_well_formed:
  "token_well_formed s \<Longrightarrow> token_well_formed (snd (setAccessToken h cfg (TokenString tok) s))"
  by (auto simp: setAccessToken_def token_well_formed_def dest: createJWTToken_token
           split: sum.splits)

lemma setAccessToken_object_well_formed:
  "isValidJWTFormat (JStr (token t)) \<Longrightarrow>
     token_well_formed (snd (setAccessToken h cfg (TokenObject t) s))"
  by (simp add: setAccessToken_def token_well_formed_def)

lemma clearAccessToken_well_formed: "token_well_formed (clearAccessToken s)"
  by (simp add: clearAccessToken_def token_well_formed_def)

lemma destroy_well_formed: "token_well_formed (destroy s)"
  by (simp add: destroy_def token_well_formed_def)

lemma performTokenRefresh_well_formed:
  "token_well_formed s \<Longrightarrow> token_well_formed (snd (performTokenRefresh cfg r s))"
  by (auto simp: performTokenRefresh_def token_well_formed_cong[of "notify c s'" s' for c s']
           intro!: clearAccessToken_well_formed split: fetch_result.splits sum.splits option.splits)

lemma performTokenRefresh_returns:
  "performTokenRefresh cfg r s = (Inr t, s1) \<Longrightarrow> isValidJWTFormat (JStr (token t)) \<and> s1 = s"
  by (auto simp: performTokenRefresh_def split: fetch_result.splits sum.splits option.splits if_splits)

lemma refresh_settle_well_formed:
  assumes "token_well_formed s"
  shows "token_well_formed (snd (refresh_settle h cfg p x s))"
proof -
  let ?s = "s\<lparr>clock := fst x, outstanding := removeAll p (outstanding s)\<rparr>"
  have 0: "token_well_formed ?s" using assms by (simp add: token_well_formed_def)
  obtain r s1 where p: "performTokenRefresh cfg (snd x) ?s = (r, s1)" by force
  with performTokenRefresh_well_formed[OF 0, of cfg "snd x"] have 1: "token_well_formed s1" by simp
  show ?thesis
  proof (cases r)
    case (Inl e)
    have "token_well_formed (settle_promise p (Inl (as_refresh_error e))
            ((notify (OnTokenRefreshError (as_refresh_error e)) s1)\<lparr>refreshPromise := None\<rparr>))"
      using 1 by (simp add: token_well_formed_def)
    with p Inl show ?thesis by (simp add: refresh_settle_def Let_def)
  next
    case (Inr newToken)
    with p have "isValidJWTFormat (JStr (token newToken))"
      using performTokenRefresh_returns by blast
    then have "token_well_formed (snd (setAccessToken h cfg (TokenObject newToken) s1))"
      by (rule setAccessToken_object_well_formed)
    then have "token_well_formed (settle_promise p (Inr newToken)
            ((notify (OnTokenRefresh newToken) (snd (setAccessToken h cfg (TokenObject newToken) s1)))
               \<lparr>refreshPromise := None\<rparr>))"
      by (simp add: token_well_formed_def)
    with p Inr show ?thesis by (simp add: refresh_settle_def Let_def)
  qed
qed

subsection \<open>Properties that the asynchronous methods preserve\<close>

lemma await_fetch_preserves:
  assumes "\<And>c s. P s \<Longrightarrow> P (s\<lparr>fetches := fetches s @ [c]\<rparr>)"
      and "\<And>t s. P s \<Longrightarrow> P (s\<lparr>clock := t\<rparr>)"
      and "P s"
  shows "P (snd (snd (await_fetch c net s)))"
  using assms by (cases net) (simp_all add: await_fetch_def Let_def)

lemma await_refresh_preserves:
  assumes "\<And>s. P s \<Longrightarrow> P (snd (refreshAccessToken cfg s))"
      and "\<And>p x s. P s \<Longrightarrow> P (snd (refresh_settle h cfg p x s))"
      and "P s"
  shows "P (snd (snd (await_refresh h cfg net s)))"
proof -
  obtain p s1 where r: "refreshAccessToken cfg s = (p, s1)" by force
  with assms(1)[OF assms(3)] have 1: "P s1" by simp
  show ?thesis
  proof (cases net)
    case Nil
    with r 1 show ?thesis by (simp add: await_refresh_def)
  next
    case (Cons x rest)
    obtain r' s2 where s: "refresh_settle h cfg p x s1 = (r', s2)" by force
    with assms(2)[OF 1, of p x] have "P s2" by simp
    with r s Cons show ?thesis by (simp add: await_refresh_def)
  qed
qed

lemma refresh_or_fail_state:
  "snd (snd (refresh_or_fail h cfg msg net s)) = snd (snd (await_refresh h cfg net s))"
  by (simp add: refresh_or_fail_def split: prod.splits option.splits sum.splits)

lemma getAccessToken_preserves:
  assumes "\<And>s. P s \<Longrightarrow> P (snd (refreshAccessToken cfg s))"
      and "\<And>p x s. P s \<Longrightarrow> P (snd (refresh_settle h cfg p x s))"
      and "P s"
  shows "P (snd (snd (getAccessToken h cfg net s)))"
  using await_refresh_preserves[of P cfg h s net, OF assms] assms(3)
  by (simp add: getAccessToken_def refresh_or_fail_state split: option.splits)

lemma retry_after_refresh_preserves:
  assumes refresh: "\<And>s. P s \<Longrightarrow> P (snd (refreshAccessToken cfg s))"
      and settle: "\<And>p x s. P s \<Longrightarrow> P (snd (refresh_settle h cfg p x s))"
      and fetch: "\<And>c s. P s \<Longrightarrow> P (s\<lparr>fetches := fetches s @ [c]\<rparr>)"
      and tick: "\<And>t s. P s \<Longrightarrow> P (s\<lparr>clock := t\<rparr>)"
      and auth: "\<And>s. P s \<Longrightarrow> P (auth_required s)"
      and "P s"
  shows "P (snd (snd (retry_after_refresh h cfg config hdrs net s)))"
proof -
  obtain o1 net1 s1 where a: "await_refresh h cfg net s = (o1, net1, s1)"
    by (cases "await_refresh h cfg net s") auto
  with await_refresh_preserves[of P cfg h s net, OF refresh settle \<open>P s\<close>] have 1: "P s1" by simp
  show ?thesis
  proof (cases o1)
    case None
    with a 1 show ?thesis by (simp add: retry_after_refresh_def)
  next
    case (Some r)
    show ?thesis
    proof (cases r)
      case (Inl e)
      with a Some auth[OF 1] show ?thesis by (simp add: retry_after_refresh_def)
    next
      case (Inr newAccessToken)
      let ?c = "request_call h config (hdrs(''Authorization'' \<mapsto> bearer (token newAccessToken)))"
      obtain o2 net2 s2 where f: "await_fetch ?c net1 s1 = (o2, net2, s2)"
        by (cases "await_fetch ?c net1 s1") auto
      with await_fetch_preserves[of P s1 ?c net1, OF fetch tick 1] have 2: "P s2" by simp
      from a Some Inr f 2 auth[OF 2] show ?thesis
        by (simp add: retry_after_refresh_def split: option.splits fetch_result.splits sum.splits)
    qed
  qed
qed

lemma request_preserves:
  assumes refresh: "\<And>s. P s \<Longrightarrow> P (snd (refreshAccessToken cfg s))"
      and settle: "\<And>p x s. P s \<Longrightarrow> P (snd (refresh_settle h cfg p x s))"
      and fetch: "\<And>c s. P s \<Longrightarrow> P (s\<lparr>fetches := fetches s @ [c]\<rparr>)"
      and tick: "\<And>t s. P s \<Longrightarrow> P (s\<lparr>clock := t\<rparr>)"
      and auth: "\<And>s. P s \<Longrightarrow> P (auth_required s)"
      and "P s"
  shows "P (snd (snd (request h cfg config net s)))"
proof -
  obtain o1 net1 s1 where g: "getAccessToken h cfg net s = (o1, net1, s1)"
    by (cases "getAccessToken h cfg net s") auto
  with getAccessToken_preserves[of P cfg h s net, OF refresh settle \<open>P s\<close>] have 1: "P s1" by simp
  show ?thesis
  proof (cases o1)
    case Pending
    with g 1 show ?thesis by (simp add: request_def)
  next
    case (Threw e)
    with g 1 show ?thesis by (simp add: request_def)
  next
    case (Returned tok)
    let ?hdrs = "spread [''Authorization'' \<mapsto> bearer tok] (headers config)"
    obtain o2 net2 s2 where f: "await_fetch (request_call h config ?hdrs) net1 s1 = (o2, net2, s2)"
      by (cases "await_fetch (request_call h config ?hdrs) net1 s1") auto
    with await_fetch_preserves[of P s1 "request_call h config ?hdrs" net1, OF fetch tick 1]
    have 2: "P s2" by simp
    have 3: "P (snd (snd (retry_after_refresh h cfg config ?hdrs net2 s2)))"
      by (rule retry_after_refresh_preserves[OF refresh settle fetch tick auth 2])
    obtain o3 net3 s3 where r: "retry_after_refresh h cfg config ?hdrs net2 s2 = (o3, net3, s3)"
      by (cases "retry_after_refresh h cfg config ?hdrs net2 s2") auto
    from g Returned f 2 3 r show ?thesis
      by (simp add: request_def split: option.splits fetch_result.splits sum.splits outcome.splits)
  qed
qed

subsection \<open>Every event preserves both properties\<close>

lemma auth_required_one_timer: "one_timer s \<Longrightarrow> one_timer (auth_required s)"
  by (simp add: auth_required_def one_timer_cong[of "notify c s'" s' for c s'] clearAccessToken_one_timer)

lemma auth_required_well_formed: "token_well_formed (auth_required s)"
  by (simp add: auth_required_def token_well_formed_cong[of "notify c s'" s' for c s'] clearAccessToken_well_formed)

lemma fetched_one_timer: "one_timer s \<Longrightarrow> one_timer (s\<lparr>fetches := fetches s @ [c]\<rparr>)"
  by (simp add: one_timer_def)

lemma ticked_one_timer: "one_timer s \<Longrightarrow> one_timer (s\<lparr>clock := t\<rparr>)"
  by (simp add: one_timer_def)

lemma step_one_timer: "one_timer s \<Longrightarrow> one_timer (step h cfg s ev)"
proof (cases ev)
  case (SetAccessToken input)
  assume "one_timer s"
  then show ?thesis unfolding SetAccessToken step.simps by (rule setAccessToken_one_timer)
next
  case ClearAccessToken
  assume "one_timer s"
  then show ?thesis unfolding ClearAccessToken step.simps by (rule clearAccessToken_one_timer)
next
  case Destroy
  assume "one_timer s"
  then show ?thesis unfolding Destroy step.simps by (rule destroy_one_timer)
next
  case RefreshAccessToken
  assume "one_timer s"
  then show ?thesis unfolding RefreshAccessToken step.simps by (rule refreshAccessToken_one_timer)
next
  case (GetAccessToken net)
  assume a: "one_timer s"
  show ?thesis unfolding GetAccessToken step.simps
    by (rule getAccessToken_preserves[where P = one_timer])
       (simp_all add: a refreshAccessToken_one_timer refresh_settle_one_timer)
next
  case (Request config net)
  assume a: "one_timer s"
  show ?thesis unfolding Request step.simps
    by (rule request_preserves[where P = one_timer])
       (simp_all add: a refreshAccessToken_one_timer refresh_settle_one_timer fetched_one_timer
          ticked_one_timer auth_required_one_timer)
next
  case (TimerFires t)
  assume "one_timer s"
  then show ?thesis unfolding TimerFires step.simps
    by (simp add: timer_fires_one_timer)
next
  case (FetchSettles p t r)
  assume "one_timer s"
  then show ?thesis unfolding FetchSettles step.simps
    by (simp add: refresh_settle_one_timer)
next
  case (ClockAdvances t)
  assume "one_timer s"
  then show ?thesis unfolding ClockAdvances step.simps by (rule ticked_one_timer)
qed

lemma run_one_timer: "one_timer s \<Longrightarrow> one_timer (run h cfg evs s)"
  unfolding run_def by (induction evs arbitrary: s) (simp_all add: step_one_timer)

lemma new_manager_one_timer: "one_timer (new_manager now)"
  by (simp add: one_timer_def new_manager_def)

lemma refreshAccessToken_well_formed:
  "token_well_formed s \<Longrightarrow> token_well_formed (snd (refreshAccessToken cfg s))"
  by (simp add: token_well_formed_cong[of "snd (refreshAccessToken cfg s)" s])

lemma fetched_well_formed: "token_well_formed s \<Longrightarrow> token_well_formed (s\<lparr>fetches := fetches s @ [c]\<rparr>)"
  by (simp add: token_well_formed_def)

lemma ticked_well_formed: "token_well_formed s \<Longrightarrow> token_well_formed (s\<lparr>clock := t\<rparr>)"
  by (simp add: token_well_formed_def)

lemma timer_fires_well_formed: "token_well_formed s \<Longrightarrow> token_well_formed (timer_fires cfg t s)"
proof -
  assume "token_well_formed s"
  then have a: "token_well_formed (s\<lparr>timers := filter (\<lambda>x. fst x \<noteq> t) (timers s)\<rparr>)"
    by (simp add: token_well_formed_def)
  obtain p s1 where r: "refreshAccessToken cfg (s\<lparr>timers := filter (\<lambda>x. fst x \<noteq> t) (timers s)\<rparr>) = (p, s1)"
    by force
  with refreshAccessToken_well_formed[OF a, of cfg] have "token_well_formed s1" by simp
  then have "token_well_formed (s1\<lparr>catching := catching s1 @ [p]\<rparr>)" by (simp add: token_well_formed_def)
  with r show ?thesis by (simp add: timer_fires_def)
qed

lemma step_well_formed:
  "token_well_formed s \<Longrightarrow> well_formed_input ev \<Longrightarrow> token_well_formed (step h cfg s ev)"
proof (cases ev)
  case (SetAccessToken input)
  assume "token_well_formed s" "well_formed_input ev"
  with SetAccessToken show ?thesis
    by (cases input) (simp_all add: setAccessToken_string_well_formed setAccessToken_object_well_formed)
next
  case ClearAccessToken
  show ?thesis unfolding ClearAccessToken step.simps by (rule clearAccessToken_well_formed)
next
  case Destroy
  show ?thesis unfolding Destroy step.simps by (rule destroy_well_formed)
next
  case RefreshAccessToken
  assume "token_well_formed s"
  then show ?thesis unfolding RefreshAccessToken step.simps by (rule refreshAccessToken_well_formed)
next
  case (GetAccessToken net)
  assume a: "token_well_formed s"
  show ?thesis unfolding GetAccessToken step.simps
    by (rule getAccessToken_preserves[where P = token_well_formed])
       (simp_all add: a refreshAccessToken_well_formed refresh_settle_well_formed)
next
  case (Request config net)
  assume a: "token_well_formed s"
  show ?thesis unfolding Request step.simps
    by (rule request_preserves[where P = token_well_formed])
       (simp_all add: a refreshAccessToken_well_formed refresh_settle_well_formed
          fetched_well_formed ticked_well_formed auth_required_well_formed)
next
  case (TimerFires t)
  assume "token_well_formed s"
  then show ?thesis unfolding TimerFires step.simps
    by (simp add: timer_fires_well_formed)
next
  case (FetchSettles p t r)
  assume "token_well_formed s"
  then show ?thesis unfolding FetchSettles step.simps
    by (simp add: refresh_settle_well_formed)
next
  case (ClockAdvances t)
  assume "token_well_formed s"
  then show ?thesis unfolding ClockAdvances step.simps by (rule ticked_well_formed)
qed

lemma run_well_formed:
  "token_well_formed s \<Longrightarrow> list_all well_formed_input evs \<Longrightarrow> token_well_formed (run h cfg evs s)"
  unfolding run_def by (induction evs arbitrary: s) (simp_all add: step_well_formed)

subsection \<open>How a refresh settles\<close>

lemma performTokenRefresh_result:
  "fst (performTokenRefresh cfg r s) = refresh_result cfg (clock s) r"
  by (simp add: refresh_result_def performTokenRefresh_def new_manager_def
           split: fetch_result.splits sum.splits option.splits)

lemma performTokenRefresh_state:
  "snd (performTokenRefresh cfg r s) =
     (if auth_rejected r then notify OnAuthFailure (clearAccessToken s) else s)"
  by (simp add: performTokenRefresh_def auth_rejected_def
           split: fetch_result.splits sum.splits option.splits)

lemma refresh_result_error:
  "refresh_result cfg now r = Inl e \<Longrightarrow> as_refresh_error e = e"
  by (auto simp: refresh_result_def performTokenRefresh_def refresh_failed_def as_refresh_error_def
           split: fetch_result.splits sum.splits option.splits if_splits)

lemma refresh_result_token:
  "refresh_result cfg now r = Inr t \<Longrightarrow> isValidJWTFormat (JStr (token t)) \<and> \<not> auth_rejected r"
  by (auto simp: refresh_result_def performTokenRefresh_def auth_rejected_def
           split: fetch_result.splits sum.splits option.splits if_splits)

lemma refresh_settle_success:
  assumes "refresh_result cfg (fst x) (snd x) = Inr newToken"
  shows "refresh_settle h cfg p x s =
     (Inr newToken,
      settle_promise p (Inr newToken)
        ((notify (OnTokenRefresh newToken)
            (scheduleTokenRefresh cfg
               (s\<lparr>clock := fst x, outstanding := removeAll p (outstanding s),
                   accessToken := Some newToken\<rparr>)))\<lparr>refreshPromise := None\<rparr>))"
proof -
  let ?s = "s\<lparr>clock := fst x, outstanding := removeAll p (outstanding s)\<rparr>"
  have "fst (performTokenRefresh cfg (snd x) ?s) = Inr newToken"
    using assms by (simp add: performTokenRefresh_result)
  moreover have "snd (performTokenRefresh cfg (snd x) ?s) = ?s"
    using refresh_result_token[OF assms] by (simp add: performTokenRefresh_state)
  ultimately have "performTokenRefresh cfg (snd x) ?s = (Inr newToken, ?s)"
    by (cases "performTokenRefresh cfg (snd x) ?s") simp
  then show ?thesis
    by (simp add: refresh_settle_def Let_def setAccessToken_def)
qed

lemma refresh_settle_failure:
  assumes "refresh_result cfg (fst x) (snd x) = Inl e"
  shows "refresh_settle h cfg p x s =
     (Inl e,
      settle_promise p (Inl e)
        ((notify (OnTokenRefreshError e)
            (snd (performTokenRefresh cfg (snd x)
                    (s\<lparr>clock := fst x, outstanding := removeAll p (outstanding s)\<rparr>))))
         \<lparr>refreshPromise := None\<rparr>))"
proof -
  let ?s = "s\<lparr>clock := fst x, outstanding := removeAll p (outstanding s)\<rparr>"
  have "fst (performTokenRefresh cfg (snd x) ?s) = Inl e"
    using assms by (simp add: performTokenRefresh_result)
  then obtain s1 where "performTokenRefresh cfg (snd x) ?s = (Inl e, s1)"
    by (cases "performTokenRefresh cfg (snd x) ?s") simp
  then show ?thesis
    using refresh_result_error[OF assms]
    by (simp add: refresh_settle_def Let_def)
qed

lemma performTokenRefresh_fields [simp]:
  "refreshPromise (snd (performTokenRefresh cfg r s)) = refreshPromise s"
  "fetches (snd (performTokenRefresh cfg r s)) = fetches s"
  "next_promise (snd (performTokenRefresh cfg r s)) = next_promise s"
  "outstanding (snd (performTokenRefresh cfg r s)) = outstanding s"
  "clock (snd (performTokenRefresh cfg r s)) = clock s"
  "settled (snd (performTokenRefresh cfg r s)) = settled s"
  "catching (snd (performTokenRefresh cfg r s)) = catching s"
  "warnings (snd (performTokenRefresh cfg r s)) = warnings s"
  by (simp_all add: performTokenRefresh_state clearAccessToken_def)

lemma refresh_settle_fields [simp]:
  "refreshPromise (snd (refresh_settle h cfg p x s)) = None"
  "settled (snd (refresh_settle h cfg p x s)) p = Some (fst (refresh_settle h cfg p x s))"
  "fetches (snd (refresh_settle h cfg p x s)) = fetches s"
  "next_promise (snd (refresh_settle h cfg p x s)) = next_promise s"
  "outstanding (snd (refresh_settle h cfg p x s)) = removeAll p (outstanding s)"
  "clock (snd (refresh_settle h cfg p x s)) = fst x"
  by (cases "refresh_result cfg (fst x) (snd x)",
      simp_all add: refresh_settle_success refresh_settle_failure)+

lemma refresh_calls_outstanding:
  "refreshPromise s = Some p \<Longrightarrow> refresh_calls cfg n s = (replicate n p, s)"
  by (induction n) (simp_all add: refreshAccessToken_outstanding)

subsection \<open>The handler of a timer\<close>

lemma run_handlers_warnings:
  "warnings (fold (run_handler p (Inl e)) qs s) = warnings s @ replicate (count_list qs p) e"
  by (induction qs arbitrary: s) (simp_all add: run_handler_def scheduled_catch_def)

lemma settle_promise_warns:
  "p \<in> set (catching s) \<Longrightarrow> e \<in> set (warnings (settle_promise p (Inl e) s))"
  by (simp add: settle_promise_def run_handlers_warnings count_list_0_iff)

lemma timer_fires_catching:
  "refreshPromise (timer_fires cfg t s) = Some p \<Longrightarrow> p \<in> set (catching (timer_fires cfg t s))"
  by (auto simp: timer_fires_def refreshAccessToken_def Let_def split: option.splits)

lemma timer_fires_timers:
  "timers (timer_fires cfg t s) = filter (\<lambda>x. fst x \<noteq> t) (timers s)"
proof -
  let ?s = "s\<lparr>timers := filter (\<lambda>x. fst x \<noteq> t) (timers s)\<rparr>"
  have "timer_fires cfg t s =
      (snd (refreshAccessToken cfg ?s))
        \<lparr>catching := catching (snd (refreshAccessToken cfg ?s)) @ [fst (refreshAccessToken cfg ?s)]\<rparr>"
    by (cases "refreshAccessToken cfg ?s") (simp add: timer_fires_def)
  then show ?thesis by simp
qed

lemma scheduleTokenRefresh_armed:
  "one_timer s \<Longrightarrow>
     (timers (scheduleTokenRefresh cfg s) \<noteq> [] \<longleftrightarrow>
        (\<exists>t. accessToken s = Some t
           \<and> js_gt (js_minus (js_minus (expiresAt t) (clock s)) (refreshBuffer cfg)) 0))"
  by (auto simp: scheduleTokenRefresh_timers split: option.splits number.splits)

lemma scheduleTokenRefresh_cancels:
  assumes "one_timer s"
  shows "set (timers (scheduleTokenRefresh cfg s)) \<inter> set (timers s) = {}"
proof -
  have "\<forall>t \<in> set (timers s). fst t < next_timer s"
    using assms by (simp add: one_timer_def list_all_iff)
  then have "(next_timer s, d) \<notin> set (timers s)" for d by fastforce
  then show ?thesis
    by (auto simp: scheduleTokenRefresh_timers[OF assms] split: option.splits number.splits if_splits)
qed

lemma one_timer_length: "one_timer s \<Longrightarrow> length (timers s) \<le> 1"
  by (simp add: one_timer_def)

lemma destroy_fields [simp]:
  "accessToken (destroy s) = None"
  "refreshPromise (destroy s) = None"
  "refreshTimeoutId (destroy s) = None"
  "outstanding (destroy s) = outstanding s"
  "fetches (destroy s) = fetches s"
  "clock (destroy s) = clock s"
  "next_timer (destroy s) = next_timer s"
  by (simp_all add: destroy_def)

lemma destroy_timers: "one_timer s \<Longrightarrow> timers (destroy s) = []"
  by (simp add: destroy_def clearRefreshTimeout_timers)

lemmas manager_defs =
  run_def refreshAccessToken_def destroy_def clearAccessToken_def clearRefreshTimeout_def
  refresh_settle_def performTokenRefresh_def setAccessToken_def scheduleTokenRefresh_def
  setTimeout_def settle_promise_def run_handler_def scheduled_catch_def timer_fires_def
  notify_def new_manager_def as_refresh_error_def refresh_failed_def invalid_received_def
  isValidJWTFormat_def Let_def

lemmas example_defs =
  example_config_def example_extract_def example_token_def example_request_def
  authorized_request_def
  refreshed_def unauthorized_def served_def

subsection \<open>The steps of a request\<close>

lemma await_fetch_Cons:
  "await_fetch c (x # rest) s = (Some (snd x), rest, s\<lparr>fetches := fetches s @ [c], clock := fst x\<rparr>)"
  by (simp add: await_fetch_def)

lemma await_fetch_fetches: "fetches (snd (snd (await_fetch c net s))) = fetches s @ [c]"
  by (cases net) (simp_all add: await_fetch_def)

lemma refresh_settle_success_fields:
  assumes "refresh_result cfg (fst x) (snd x) = Inr newToken"
  shows "fst (refresh_settle h cfg p x s) = Inr newToken"
    and "accessToken (snd (refresh_settle h cfg p x s)) = Some newToken"
    and "callbacks (snd (refresh_settle h cfg p x s)) = callbacks s @ [OnTokenRefresh newToken]"
  by (simp_all add: refresh_settle_success[OF assms])

lemma refresh_settle_failure_fields:
  assumes "refresh_result cfg (fst x) (snd x) = Inl e"
  shows "fst (refresh_settle h cfg p x s) = Inl e"
    and "callbacks (snd (refresh_settle h cfg p x s)) =
           callbacks s @ (if auth_rejected (snd x) then [OnAuthFailure] else [])
             @ [OnTokenRefreshError e]"
  by (simp_all add: refresh_settle_failure[OF assms] performTokenRefresh_state clearAccessToken_def)

lemma refresh_settle_Inr:
  "fst (refresh_settle h cfg p x s) = Inr newToken \<Longrightarrow> refresh_result cfg (fst x) (snd x) = Inr newToken"
  by (cases "refresh_result cfg (fst x) (snd x)")
     (simp_all add: refresh_settle_success refresh_settle_failure)

lemma await_refresh_Cons:
  "await_refresh h cfg (x # rest) s =
     (Some (fst (refresh_settle h cfg (fst (refreshAccessToken cfg s)) x (snd (refreshAccessToken cfg s)))),
      rest,
      snd (refresh_settle h cfg (fst (refreshAccessToken cfg s)) x (snd (refreshAccessToken cfg s))))"
  by (simp add: await_refresh_def split: prod.splits)

lemma await_refresh_Returned:
  assumes "await_refresh h cfg net s = (Some (Inr newToken), net1, s1)"
  shows "callbacks s1 = callbacks s @ [OnTokenRefresh newToken]"
proof (cases net)
  case Nil
  with assms show ?thesis by (simp add: await_refresh_def split: prod.splits)
next
  case (Cons x rest)
  with assms have r: "fst (refresh_settle h cfg (fst (refreshAccessToken cfg s)) x (snd (refreshAccessToken cfg s))) = Inr newToken"
    and s1: "s1 = snd (refresh_settle h cfg (fst (refreshAccessToken cfg s)) x (snd (refreshAccessToken cfg s)))"
    by (simp_all add: await_refresh_Cons)
  from refresh_settle_success_fields(3)[OF refresh_settle_Inr[OF r]] s1 show ?thesis by simp
qed

lemma getAccessToken_Returned_callbacks:
  assumes "getAccessToken h cfg net s = (Returned tok, net1, s1)"
  shows "count_list (callbacks s1) OnAuthFailure = count_list (callbacks s) OnAuthFailure"
proof -
  have refreshing: "count_list (callbacks s1) OnAuthFailure = count_list (callbacks s) OnAuthFailure"
    if "refresh_or_fail h cfg msg net s = (Returned tok, net1, s1)" for msg
  proof -
    obtain o1 n1 s1' where a: "await_refresh h cfg net s = (o1, n1, s1')"
      by (cases "await_refresh h cfg net s") auto
    with that obtain newToken where "o1 = Some (Inr newToken)" and "s1' = s1"
      by (auto simp: refresh_or_fail_def split: option.splits sum.splits)
    with a await_refresh_Returned[of h cfg net s newToken n1 s1] show ?thesis by simp
  qed
  show ?thesis
  proof (cases "accessToken s")
    case None
    with assms refreshing show ?thesis by (simp add: getAccessToken_def)
  next
    case (Some t)
    with assms refreshing show ?thesis
      by (cases "isTokenExpired (clock s) t (refreshBuffer cfg)") (auto simp: getAccessToken_def)
  qed
qed

lemma auth_required_fields [simp]:
  "accessToken (auth_required s) = None"
  "callbacks (auth_required s) = callbacks s @ [OnAuthFailure]"
  "fetches (auth_required s) = fetches s"
  by (simp_all add: auth_required_def clearAccessToken_def)

lemma getAccessToken_current:
  "accessToken s = Some t \<Longrightarrow> \<not> isTokenExpired (clock s) t (refreshBuffer cfg) \<Longrightarrow>
     getAccessToken h cfg net s = (Returned (token t), net, s)"
  by (simp add: getAccessToken_def)

lemma retry_after_refresh_fetches:
  "\<exists>more. fetches (snd (snd (retry_after_refresh h cfg config hdrs net s))) = fetches s @ more"
proof -
  let ?P = "\<lambda>\<sigma>. \<exists>more. fetches \<sigma> = fetches s @ more"
  show ?thesis
  proof (rule retry_after_refresh_preserves[where P = ?P])
    show "?P (snd (refreshAccessToken cfg \<sigma>))" if "?P \<sigma>" for \<sigma>
      using that by (auto simp: refreshAccessToken_def Let_def split: option.splits)
    show "?P (snd (refresh_settle h cfg p x \<sigma>))" if "?P \<sigma>" for p x \<sigma>
      using that by simp
    show "?P (\<sigma>\<lparr>fetches := fetches \<sigma> @ [c]\<rparr>)" if "?P \<sigma>" for c \<sigma>
      using that by auto
    show "?P (\<sigma>\<lparr>clock := t\<rparr>)" if "?P \<sigma>" for t \<sigma>
      using that by simp
    show "?P (auth_required \<sigma>)" if "?P \<sigma>" for \<sigma>
      using that by simp
    show "?P s" by simp
  qed
qed

lemma request_first_call:
  assumes "getAccessToken h cfg net s = (Returned tok, net1, s1)"
  shows "\<exists>more. fetches (snd (snd (request h cfg config net s))) =
           fetches s1 @ request_call h config (spread [''Authorization'' \<mapsto> bearer tok] (headers config)) # more"
proof -
  let ?hdrs = "spread [''Authorization'' \<mapsto> bearer tok] (headers config)"
  let ?c = "request_call h config ?hdrs"
  obtain o2 net2 s2 where f: "await_fetch ?c net1 s1 = (o2, net2, s2)"
    by (cases "await_fetch ?c net1 s1") auto
  with await_fetch_fetches[of ?c net1 s1] have 2: "fetches s2 = fetches s1 @ [?c]" by simp
  obtain o3 net3 s3 where r: "retry_after_refresh h cfg config ?hdrs net2 s2 = (o3, net3, s3)"
    by (cases "retry_after_refresh h cfg config ?hdrs net2 s2") auto
  with retry_after_refresh_fetches[of h cfg config ?hdrs net2 s2]
  obtain more where 3: "fetches s3 = fetches s2 @ more" by auto
  have "snd (snd (request h cfg config net s)) = s2 \<or> snd (snd (request h cfg config net s)) = s3"
    using assms f r
    by (simp add: request_def Let_def split: option.splits fetch_result.splits sum.splits outcome.splits)
  with 2 3 show ?thesis by auto
qed

lemma spread_lookup:
  "spread base extra k =
     (case extra of
        None \<Rightarrow> base k
      | Some m \<Rightarrow> (case m k of None \<Rightarrow> base k | Some v \<Rightarrow> Some v))"
  by (simp add: spread_def map_add_def split: option.splits)

lemmas request_defs =
  request_def retry_after_refresh_def getAccessToken_def refresh_or_fail_def await_refresh_def
  await_fetch_def auth_required_def request_failed_def request_call_def refresh_call_def
  apply_options_def or_default_def spread_def read_body_def respond_def isTokenExpired_def
  bearer_def

lemma example_manager_eq:
  "example_manager =
     \<lparr>accessToken = Some \<lparr>token = ''header.payload.signature'', expiresAt = Num 3600000\<rparr>,
      refreshPromise = None, refreshTimeoutId = Some 1,
      clock = 0, timers = [(1, 3594000)], next_timer = 2, next_promise = 0,
      outstanding = [], settled = Map.empty, catching = [],
      fetches = [], callbacks = [], warnings = []\<rparr>"
  by (simp add: example_manager_def manager_defs example_defs)

lemma example_getAccessToken:
  "getAccessToken example_host example_config net example_manager
     = (Returned ''header.payload.signature'', net, example_manager)"
  by (simp add: example_manager_eq getAccessToken_def isTokenExpired_def example_defs)

section \<open>The manager: the claims\<close>

subsection \<open>Coalescing of refreshes\<close>

text \<open>
  Claim C1. Let a call of \<open>refreshAccessToken\<close> find no refresh outstanding, and let
  \<open>n\<close> more calls follow before the network call settles. Every one of them returns
  the promise \<open>p\<close> of the first, and the whole sequence makes one call of \<open>fetch\<close>, to
  the refresh endpoint, which is still outstanding after the last of them. When the
  network call settles, with whatever outcome, \<open>p\<close> settles to one result \<open>r\<close>, a token
  or an error, which every caller observes; no further network call is made,
  \<open>refreshPromise\<close> is empty again, and the next call of \<open>refreshAccessToken\<close> returns
  another promise and makes a new call of \<open>fetch\<close>.
\<close>

theorem refreshAccessToken_coalesces:
  assumes "refreshPromise s = None"
      and "refreshAccessToken cfg s = (p, s1)"
      and "refresh_calls cfg n s1 = (ps, s2)"
      and "refresh_settle h cfg p x s2 = (r, s3)"
      and "refreshAccessToken cfg s3 = (p', s4)"
  shows "(\<forall>q \<in> set ps. q = p)
       \<and> length ps = n
       \<and> p \<in> set (outstanding s2)
       \<and> fetches s2 = fetches s @ [refresh_call cfg]
       \<and> fetches s3 = fetches s @ [refresh_call cfg]
       \<and> p \<notin> set (outstanding s3)
       \<and> (\<forall>q \<in> set (p # ps). settled s3 q = Some r)
       \<and> refreshPromise s3 = None
       \<and> p' \<noteq> p
       \<and> fetches s4 = fetches s3 @ [refresh_call cfg]
       \<and> refreshPromise s4 = Some p'"
proof -
  from assms(1,2) have p: "p = next_promise s"
    and s1: "s1 = s\<lparr>fetches := fetches s @ [refresh_call cfg],
                    outstanding := outstanding s @ [next_promise s],
                    next_promise := Suc (next_promise s),
                    refreshPromise := Some (next_promise s)\<rparr>"
    by (auto simp: refreshAccessToken_fresh)
  from s1 p have slot: "refreshPromise s1 = Some p" by simp
  from assms(3) refresh_calls_outstanding[OF slot, of cfg n]
  have ps: "ps = replicate n p" and s2: "s2 = s1" by simp_all
  from assms(4) have r: "r = fst (refresh_settle h cfg p x s2)"
    and s3: "s3 = snd (refresh_settle h cfg p x s2)" by simp_all
  have slot3: "refreshPromise s3 = None" and f3: "fetches s3 = fetches s2"
    and n3: "next_promise s3 = next_promise s2" and o3: "settled s3 p = Some r"
    and out3: "p \<notin> set (outstanding s3)"
    unfolding s3 r by simp_all
  from assms(5) slot3 have p': "p' = next_promise s3"
    and s4: "s4 = s3\<lparr>fetches := fetches s3 @ [refresh_call cfg],
                    outstanding := outstanding s3 @ [next_promise s3],
                    next_promise := Suc (next_promise s3),
                    refreshPromise := Some (next_promise s3)\<rparr>"
    by (auto simp: refreshAccessToken_fresh)
  from p' n3 s2 s1 p have "p' = Suc p" by simp
  with ps s2 s1 f3 o3 out3 slot3 s4 p p' show ?thesis by simp
qed

text \<open>The theorem at a new manager, three calls in a row and a successful refresh.\<close>

theorem refreshAccessToken_coalesces_witness:
  "refreshPromise (new_manager 0) = None
   \<and> refreshAccessToken example_config (new_manager 0)
       = (0, snd (refreshAccessToken example_config (new_manager 0)))
   \<and> fst (refresh_calls example_config 2 (snd (refreshAccessToken example_config (new_manager 0))))
       = [0, 0]
   \<and> length (fetches (snd (refresh_calls example_config 2
                 (snd (refreshAccessToken example_config (new_manager 0)))))) = 1
   \<and> settled
        (snd (refresh_settle example_host example_config 0 (1000, Resolves refreshed)
                (snd (refresh_calls example_config 2
                        (snd (refreshAccessToken example_config (new_manager 0))))))) 0
       = Some (Inr \<lparr>token = ''new.access.token'', expiresAt = Num 3601000\<rparr>)
   \<and> refreshPromise
        (snd (refresh_settle example_host example_config 0 (1000, Resolves refreshed)
                (snd (refresh_calls example_config 2
                        (snd (refreshAccessToken example_config (new_manager 0)))))))
       = None"
proof -
  let ?s = "new_manager 0"
  let ?s1 = "snd (refreshAccessToken example_config ?s)"
  let ?s2 = "snd (refresh_calls example_config 2 ?s1)"
  let ?x = "(1000, Resolves refreshed)"
  let ?s3 = "snd (refresh_settle example_host example_config 0 ?x ?s2)"
  have 1: "refreshPromise ?s = None" by (simp add: new_manager_def)
  have 2: "refreshAccessToken example_config ?s = (0, ?s1)"
    by (simp add: refreshAccessToken_def new_manager_def Let_def)
  have 3: "refresh_calls example_config 2 ?s1 = (fst (refresh_calls example_config 2 ?s1), ?s2)"
    by simp
  have 4: "refresh_settle example_host example_config 0 ?x ?s2
      = (fst (refresh_settle example_host example_config 0 ?x ?s2), ?s3)"
    by simp
  have 5: "refreshAccessToken example_config ?s3
      = (fst (refreshAccessToken example_config ?s3), snd (refreshAccessToken example_config ?s3))"
    by simp
  have r: "refresh_result example_config 1000 (Resolves refreshed)
      = Inr \<lparr>token = ''new.access.token'', expiresAt = Num 3601000\<rparr>"
    by (simp add: refresh_result_def manager_defs example_defs)
  have 6: "fst (refresh_settle example_host example_config 0 ?x ?s2)
      = Inr \<lparr>token = ''new.access.token'', expiresAt = Num 3601000\<rparr>"
    using refresh_settle_success_fields(1)[of example_config ?x _ example_host 0 ?s2] r by simp
  have 7: "fst (refresh_calls example_config 2 ?s1) = [0, 0]"
    by (simp add: numeral_2_eq_2 refreshAccessToken_def new_manager_def Let_def)
  from refreshAccessToken_coalesces[OF 1 2 3 4 5] 1 2 6 7 show ?thesis
    by (simp add: new_manager_def)
qed

subsection \<open>The headers of a request\<close>

text \<open>
  The first attempt of a request. When \<open>getAccessToken\<close> returns \<open>tok\<close>, the next call of
  \<open>fetch\<close> is the request with the headers
  \<open>{Authorization: Bearer tok, ...config.headers}\<close>: the caller's headers are spread
  after the manager's, so on this attempt a header \<open>Authorization\<close> of the caller
  replaces the bearer header. Every other header is the caller's. Headers given in the
  caller's \<open>options\<close> replace all of these.
\<close>

lemma first_attempt_headers:
  assumes "getAccessToken h cfg net s = (Returned tok, net1, s1)"
      and "c = request_call h config (spread [''Authorization'' \<mapsto> bearer tok] (headers config))"
  shows "(\<exists>more. fetches (snd (snd (request h cfg config net s))) = fetches s1 @ c # more)
       \<and> (opt_headers (options config) = None \<longrightarrow>
            init_headers (call_init c) ''Authorization'' =
              (case headers config of
                 None \<Rightarrow> Some (bearer tok)
               | Some hs \<Rightarrow> (case hs ''Authorization'' of None \<Rightarrow> Some (bearer tok) | Some v \<Rightarrow> Some v))
            \<and> (\<forall>k. k \<noteq> ''Authorization'' \<longrightarrow>
                  init_headers (call_init c) k =
                    (case headers config of None \<Rightarrow> None | Some hs \<Rightarrow> hs k)))
       \<and> (\<forall>hs. opt_headers (options config) = Some hs \<longrightarrow> init_headers (call_init c) = hs)"
proof -
  have "\<exists>more. fetches (snd (snd (request h cfg config net s))) = fetches s1 @ c # more"
    unfolding assms(2) by (rule request_first_call[OF assms(1)])
  moreover have "init_headers (call_init c) k =
      (case opt_headers (options config) of
         None \<Rightarrow> spread [''Authorization'' \<mapsto> bearer tok] (headers config) k
       | Some hs \<Rightarrow> hs k)" for k
    unfolding assms(2) by (simp add: request_call_def apply_options_def split: option.splits)
  ultimately show ?thesis
    by (auto simp: spread_lookup split: option.splits)
qed

text \<open>The lemma at a request without headers and at one with its own \<open>Authorization\<close>.\<close>

lemma first_attempt_headers_examples:
  "getAccessToken example_host example_config [(10, Resolves served)] example_manager
     = (Returned ''header.payload.signature'', [(10, Resolves served)], example_manager)
   \<and> init_headers
        (call_init
           (request_call example_host example_request
              (spread [''Authorization'' \<mapsto> bearer ''header.payload.signature'']
                 (headers example_request))))
        ''Authorization''
     = Some ''Bearer header.payload.signature''
   \<and> init_headers
        (call_init
           (request_call example_host authorized_request
              (spread [''Authorization'' \<mapsto> bearer ''header.payload.signature'']
                 (headers authorized_request))))
        ''Authorization''
     = Some ''Basic Zm9v''"
  using first_attempt_headers[where config = example_request
            and net = "[(10, Resolves served)]", OF example_getAccessToken refl]
        first_attempt_headers[where config = authorized_request
            and net = "[(10, Resolves served)]", OF example_getAccessToken refl]
  by (simp add: example_getAccessToken example_request_def authorized_request_def bearer_def)

text \<open>
  Claim C2 is right and the code breaks it on the first attempt. The manager holds a
  token that is not expired and the caller supplies \<open>Authorization: Basic Zm9v\<close>. The
  first attempt is sent with the caller's header in place of the bearer header, whether
  it is served or answered 401. The retry after a 401 puts the manager's header last,
  \<open>{...headers, Authorization: Bearer new}\<close>, and is sent with the bearer header of the
  new token: the retry does what the claim says, and the first attempt, which spreads the
  caller's headers after the manager's, does not.
\<close>

theorem caller_authorization_replaces_bearer:
  "fst (getAccessToken example_host example_config [(10, Resolves served)] example_manager)
     = Returned ''header.payload.signature''
   \<and> init_headers
        (call_init
           (hd (fetches
                  (snd (snd (request example_host example_config authorized_request
                               [(10, Resolves served)] example_manager))))))
        ''Authorization''
     = Some ''Basic Zm9v''
   \<and> init_headers
        (call_init
           (hd (fetches
                  (snd (snd (request example_host example_config authorized_request
                               [(10, Resolves unauthorized), (20, Resolves refreshed),
                                (30, Resolves served)] example_manager))))))
        ''Authorization''
     = Some ''Basic Zm9v''
   \<and> init_headers
        (call_init
           (last (fetches
                  (snd (snd (request example_host example_config authorized_request
                               [(10, Resolves unauthorized), (20, Resolves refreshed),
                                (30, Resolves served)] example_manager))))))
        ''Authorization''
     = Some ''Bearer new.access.token''"
  by (simp add: example_manager_eq request_defs manager_defs example_defs)

subsection \<open>A 401 and a refresh that fails\<close>

text \<open>
  Claim C3, amended. Let \<open>request\<close> have obtained its token, let its first response have
  status 401, and let the refresh that follows fail. Then the call throws
  \<open>NoValidTokenError\<close>, the current token is absent, and the callback \<open>onAuthFailure\<close> has
  been called once by \<open>request\<close>, and once more by the refresh when the refresh failed
  because its endpoint answered 401 or 403: twice in that case, once in every other.
\<close>

theorem request_refresh_fails:
  assumes "getAccessToken h cfg net s = (Returned tok, (t1, Resolves response) # x # rest, s1)"
      and "resp_status response = 401"
      and "refresh_result cfg (fst x) (snd x) = Inl e"
      and "request h cfg config net s = (result, net', s')"
  shows "result = Threw (NoValidTokenError ''Authentication required'')
       \<and> net' = rest
       \<and> accessToken s' = None
       \<and> count_list (callbacks s') OnAuthFailure =
           count_list (callbacks s) OnAuthFailure + (if auth_rejected (snd x) then 2 else 1)"
proof -
  let ?hdrs = "spread [''Authorization'' \<mapsto> bearer tok] (headers config)"
  let ?s2 = "s1\<lparr>fetches := fetches s1 @ [request_call h config ?hdrs], clock := t1\<rparr>"
  let ?p = "fst (refreshAccessToken cfg ?s2)"
  let ?s2' = "snd (refreshAccessToken cfg ?s2)"
  let ?s3 = "snd (refresh_settle h cfg ?p x ?s2')"
  have retry: "retry_after_refresh h cfg config ?hdrs (x # rest) ?s2 =
      (Threw (NoValidTokenError ''Authentication required''), rest, auth_required ?s3)"
    by (simp add: retry_after_refresh_def await_refresh_Cons
          refresh_settle_failure_fields(1)[OF assms(3)])
  have "request h cfg config net s =
      (Threw (NoValidTokenError ''Authentication required''), rest, auth_required ?s3)"
    using assms(1,2) retry
    by (simp add: request_def await_fetch_Cons request_failed_def Let_def)
  with assms(4) have res: "result = Threw (NoValidTokenError ''Authentication required'')"
    and net: "net' = rest" and s': "s' = auth_required ?s3" by simp_all
  have "callbacks ?s3 = callbacks s1 @ (if auth_rejected (snd x) then [OnAuthFailure] else [])
             @ [OnTokenRefreshError e]"
    by (simp add: refresh_settle_failure_fields(2)[OF assms(3)])
  then have "count_list (callbacks s') OnAuthFailure =
      count_list (callbacks s1) OnAuthFailure + (if auth_rejected (snd x) then 2 else 1)"
    unfolding s' by simp
  with getAccessToken_Returned_callbacks[OF assms(1)] res net s' show ?thesis by simp
qed

text \<open>The theorem at a 401 followed by a refresh that fails on the network.\<close>

theorem request_refresh_fails_witness:
  "resp_status unauthorized = 401
   \<and> refresh_result example_config 20 (Rejects (Error ''Network error''))
       = Inl (TokenRefreshError ''Failed to refresh access token'' (Error ''Network error''))
   \<and> fst (request example_host example_config example_request
            [(10, Resolves unauthorized), (20, Rejects (Error ''Network error''))] example_manager)
       = Threw (NoValidTokenError ''Authentication required'')
   \<and> accessToken
        (snd (snd (request example_host example_config example_request
            [(10, Resolves unauthorized), (20, Rejects (Error ''Network error''))] example_manager)))
       = None
   \<and> count_list
        (callbacks
           (snd (snd (request example_host example_config example_request
              [(10, Resolves unauthorized), (20, Rejects (Error ''Network error''))] example_manager))))
        OnAuthFailure
       = 1"
proof -
  let ?net = "[(10, Resolves unauthorized), (20, Rejects (Error ''Network error''))]"
  let ?r = "request example_host example_config example_request ?net example_manager"
  have 1: "getAccessToken example_host example_config ?net example_manager
      = (Returned ''header.payload.signature'',
         (10, Resolves unauthorized) # (20, Rejects (Error ''Network error'')) # [], example_manager)"
    by (simp add: example_getAccessToken)
  have 2: "resp_status unauthorized = 401" by (simp add: unauthorized_def)
  have 3: "refresh_result example_config (fst (20, Rejects (Error ''Network error'')))
             (snd (20::int, Rejects (Error ''Network error'')))
      = Inl (TokenRefreshError ''Failed to refresh access token'' (Error ''Network error''))"
    by (simp add: refresh_result_def performTokenRefresh_def refresh_failed_def)
  have 4: "?r = (fst ?r, fst (snd ?r), snd (snd ?r))" by simp
  have 5: "count_list (callbacks example_manager) OnAuthFailure = 0"
    by (simp add: example_manager_eq)
  from request_refresh_fails[OF 1 2 3 4] 2 3 5 show ?thesis
    by (simp add: auth_rejected_def)
qed

text \<open>
  Claim C3 as stated fails when the refresh endpoint answers 401: \<open>onAuthFailure\<close> is
  called twice.
\<close>

theorem auth_failure_twice_counterexample:
  "fst (request example_host example_config example_request
          [(10, Resolves unauthorized), (20, Resolves unauthorized)] example_manager)
     = Threw (NoValidTokenError ''Authentication required'')
   \<and> count_list
        (callbacks
           (snd (snd (request example_host example_config example_request
                        [(10, Resolves unauthorized), (20, Resolves unauthorized)] example_manager))))
        OnAuthFailure
     = 2"
  by (simp add: example_manager_eq request_defs manager_defs example_defs)

subsection \<open>Disposal\<close>

text \<open>
  Claim C4, amended. In every state that a sequence of events leads to, \<open>destroy\<close> leaves
  no timer armed, no current token and no promise in \<open>refreshPromise\<close>, so no timer
  fires a refresh afterwards. It makes no network call and cancels none: a refresh that is
  outstanding stays so, and when its network call later settles with a valid token, that
  token becomes the current token and a timer is armed again whenever
  \<open>expiresAt - now - refreshBuffer\<close> is positive.
\<close>

theorem destroy_cancels_timer_not_refresh:
  assumes "s = run h cfg evs (new_manager now)"
  shows "timers (destroy s) = []
       \<and> accessToken (destroy s) = None
       \<and> refreshPromise (destroy s) = None
       \<and> (\<forall>t. step h cfg (destroy s) (TimerFires t) = destroy s)
       \<and> outstanding (destroy s) = outstanding s
       \<and> fetches (destroy s) = fetches s
       \<and> (\<forall>p t r newToken.
             p \<in> set (outstanding s) \<and> refresh_result cfg t r = Inr newToken \<longrightarrow>
               accessToken (step h cfg (destroy s) (FetchSettles p t r)) = Some newToken
               \<and> (timers (step h cfg (destroy s) (FetchSettles p t r)) \<noteq> [] \<longleftrightarrow>
                    js_gt (js_minus (js_minus (expiresAt newToken) t) (refreshBuffer cfg)) 0))"
proof -
  have inv: "one_timer s"
    unfolding assms by (rule run_one_timer[OF new_manager_one_timer])
  then have none: "timers (destroy s) = []" by (rule destroy_timers)
  have later: "accessToken (step h cfg (destroy s) (FetchSettles p t r)) = Some newToken
        \<and> (timers (step h cfg (destroy s) (FetchSettles p t r)) \<noteq> [] \<longleftrightarrow>
             js_gt (js_minus (js_minus (expiresAt newToken) t) (refreshBuffer cfg)) 0)"
    if p: "p \<in> set (outstanding s)" and r: "refresh_result cfg t r = Inr newToken"
    for p t r newToken
  proof -
    let ?s1 = "(destroy s)\<lparr>clock := t, outstanding := removeAll p (outstanding (destroy s)),
                  accessToken := Some newToken\<rparr>"
    have "one_timer ?s1" using none by (simp add: one_timer_def)
    from scheduleTokenRefresh_armed[OF this, of cfg]
    have "timers (scheduleTokenRefresh cfg ?s1) \<noteq> [] \<longleftrightarrow>
            js_gt (js_minus (js_minus (expiresAt newToken) t) (refreshBuffer cfg)) 0"
      by simp
    moreover from r have "refresh_result cfg (fst (t, r)) (snd (t, r)) = Inr newToken" by simp
    note refresh_settle_success[OF this, of h p "destroy s"]
    ultimately show ?thesis using p by simp
  qed
  from none later show ?thesis by simp
qed

text \<open>
  The theorem at a manager with a token, an armed timer and a refresh outstanding.
\<close>

theorem destroy_cancels_timer_not_refresh_witness:
  "timers (run example_host example_config
             [SetAccessToken (TokenObject example_token), RefreshAccessToken] (new_manager 0))
     = [(1, 3594000)]
   \<and> outstanding (run example_host example_config
             [SetAccessToken (TokenObject example_token), RefreshAccessToken] (new_manager 0))
     = [0]
   \<and> timers (destroy (run example_host example_config
             [SetAccessToken (TokenObject example_token), RefreshAccessToken] (new_manager 0)))
     = []
   \<and> step example_host example_config
        (destroy (run example_host example_config
             [SetAccessToken (TokenObject example_token), RefreshAccessToken] (new_manager 0)))
        (TimerFires 1)
     = destroy (run example_host example_config
             [SetAccessToken (TokenObject example_token), RefreshAccessToken] (new_manager 0))
   \<and> accessToken
        (step example_host example_config
           (destroy (run example_host example_config
              [SetAccessToken (TokenObject example_token), RefreshAccessToken] (new_manager 0)))
           (FetchSettles 0 1000 (Resolves refreshed)))
     = Some \<lparr>token = ''new.access.token'', expiresAt = Num 3601000\<rparr>"
proof -
  let ?s = "run example_host example_config
             [SetAccessToken (TokenObject example_token), RefreshAccessToken] (new_manager 0)"
  have t: "timers ?s = [(1, 3594000)]" and o: "outstanding ?s = [0]"
    by (simp_all add: manager_defs example_defs)
  have r: "refresh_result example_config 1000 (Resolves refreshed)
      = Inr \<lparr>token = ''new.access.token'', expiresAt = Num 3601000\<rparr>"
    by (simp add: refresh_result_def manager_defs example_defs)
  from destroy_cancels_timer_not_refresh[OF refl, of example_host example_config
         "[SetAccessToken (TokenObject example_token), RefreshAccessToken]" 0]
  have "timers (destroy ?s) = []"
    and "\<forall>t. step example_host example_config (destroy ?s) (TimerFires t) = destroy ?s"
    and "\<forall>p t r newToken.
           p \<in> set (outstanding ?s) \<and> refresh_result example_config t r = Inr newToken \<longrightarrow>
             accessToken (step example_host example_config (destroy ?s) (FetchSettles p t r))
               = Some newToken"
    by blast+
  with t o r show ?thesis by simp
qed

text \<open>
  Claim C4 as stated fails: a refresh is started, the manager is destroyed, the network
  call settles; the manager has a current token and an armed timer.
\<close>

theorem destroy_then_settle_counterexample:
  "accessToken
     (run example_host example_config
        [RefreshAccessToken, Destroy, FetchSettles 0 1000 (Resolves refreshed)] (new_manager 0))
     = Some \<lparr>token = ''new.access.token'', expiresAt = Num 3601000\<rparr>
   \<and> timers
     (run example_host example_config
        [RefreshAccessToken, Destroy, FetchSettles 0 1000 (Resolves refreshed)] (new_manager 0))
     = [(1, 3594000)]"
  by (simp add: manager_defs example_defs)

subsection \<open>A 401, a refresh and a retry\<close>

text \<open>
  Claim C5, amended. Let \<open>request\<close> be called while the current token is present and not
  expired under the buffer and no refresh is outstanding; let its first response have
  status 401, let the refresh succeed with \<open>newToken\<close>, and let the request sent again
  get a response whose body can be read. Then exactly three calls of \<open>fetch\<close> are made,
  the request, the refresh and the request again; the last one carries
  \<open>Bearer newToken\<close> in its header \<open>Authorization\<close> (unless the caller's \<open>options\<close>
  replace the headers); the call returns the second response, whatever its status; and
  \<open>newToken\<close> is the current token.
\<close>

theorem request_refresh_and_retry:
  assumes "accessToken s = Some t"
      and "\<not> isTokenExpired (clock s) t (refreshBuffer cfg)"
      and "refreshPromise s = None"
      and "net = (t1, Resolves response) # x # (t3, Resolves retryResponse) # rest"
      and "resp_status response = 401"
      and "refresh_result cfg (fst x) (snd x) = Inr newToken"
      and "read_body retryResponse = Inr retryData"
      and "hdrs = spread [''Authorization'' \<mapsto> bearer (token t)] (headers config)"
      and "request h cfg config net s = (result, net', s')"
  shows "result = Returned (respond retryResponse retryData)
       \<and> net' = rest
       \<and> fetches s' = fetches s @
           [request_call h config hdrs,
            refresh_call cfg,
            request_call h config (hdrs(''Authorization'' \<mapsto> bearer (token newToken)))]
       \<and> (opt_headers (options config) = None \<longrightarrow>
            init_headers (call_init (last (fetches s'))) ''Authorization''
              = Some (bearer (token newToken)))
       \<and> accessToken s' = Some newToken"
proof -
  let ?s2 = "s\<lparr>fetches := fetches s @ [request_call h config hdrs], clock := t1\<rparr>"
  let ?p = "next_promise s"
  let ?s2' = "?s2\<lparr>fetches := fetches ?s2 @ [refresh_call cfg],
                  outstanding := outstanding ?s2 @ [?p],
                  next_promise := Suc ?p,
                  refreshPromise := Some ?p\<rparr>"
  let ?s3 = "snd (refresh_settle h cfg ?p x ?s2')"
  let ?c3 = "request_call h config (hdrs(''Authorization'' \<mapsto> bearer (token newToken)))"
  let ?s4 = "?s3\<lparr>fetches := fetches ?s3 @ [?c3], clock := t3\<rparr>"
  have start: "refreshAccessToken cfg ?s2 = (?p, ?s2')"
    using assms(3) by (simp add: refreshAccessToken_fresh)
  have retry: "retry_after_refresh h cfg config hdrs (x # (t3, Resolves retryResponse) # rest) ?s2 =
      (Returned (respond retryResponse retryData), rest, ?s4)"
    using assms(7)
    by (simp add: retry_after_refresh_def await_refresh_Cons start await_fetch_Cons
          refresh_settle_success_fields(1)[OF assms(6)])
  have "request h cfg config net s = (Returned (respond retryResponse retryData), rest, ?s4)"
    using assms(4,5) retry
    by (simp add: request_def getAccessToken_current[OF assms(1,2)] await_fetch_Cons Let_def
          assms(8)[symmetric])
  with assms(9) have res: "result = Returned (respond retryResponse retryData)"
    and net: "net' = rest" and s': "s' = ?s4" by simp_all
  have f: "fetches s' = fetches s @ [request_call h config hdrs, refresh_call cfg, ?c3]"
    unfolding s' by simp
  have tok: "accessToken s' = Some newToken"
    unfolding s' by (simp add: refresh_settle_success_fields(2)[OF assms(6)])
  have "init_headers (call_init ?c3) ''Authorization'' = Some (bearer (token newToken))"
    if "opt_headers (options config) = None"
    using that by (simp add: request_call_def apply_options_def)
  with f have "opt_headers (options config) = None \<longrightarrow>
      init_headers (call_init (last (fetches s'))) ''Authorization'' = Some (bearer (token newToken))"
    by simp
  with res net f tok show ?thesis by simp
qed

text \<open>The theorem at a 401, a successful refresh and a retry that is answered 401 again.\<close>

theorem request_refresh_and_retry_witness:
  "fst (request example_host example_config example_request
          [(10, Resolves unauthorized), (20, Resolves refreshed), (30, Resolves unauthorized)]
          example_manager)
     = Returned (respond unauthorized (JStr []))
   \<and> map call_url
        (fetches
           (snd (snd (request example_host example_config example_request
              [(10, Resolves unauthorized), (20, Resolves refreshed), (30, Resolves unauthorized)]
              example_manager))))
     = [''https://api.example.com/data'', ''https://api.example.com/auth/refresh'',
        ''https://api.example.com/data'']
   \<and> init_headers
        (call_init
           (last (fetches
              (snd (snd (request example_host example_config example_request
                 [(10, Resolves unauthorized), (20, Resolves refreshed), (30, Resolves unauthorized)]
                 example_manager))))))
        ''Authorization''
     = Some ''Bearer new.access.token''
   \<and> accessToken
        (snd (snd (request example_host example_config example_request
           [(10, Resolves unauthorized), (20, Resolves refreshed), (30, Resolves unauthorized)]
           example_manager)))
     = Some \<lparr>token = ''new.access.token'', expiresAt = Num 3600020\<rparr>"
proof -
  let ?net = "[(10, Resolves unauthorized), (20, Resolves refreshed), (30, Resolves unauthorized)]"
  let ?r = "request example_host example_config example_request ?net example_manager"
  let ?new = "\<lparr>token = ''new.access.token'', expiresAt = Num 3600020\<rparr>"
  have 1: "accessToken example_manager = Some example_token"
    by (simp add: example_manager_eq example_token_def)
  have 2: "\<not> isTokenExpired (clock example_manager) example_token (refreshBuffer example_config)"
    by (simp add: example_manager_eq example_defs isTokenExpired_def)
  have 3: "refreshPromise example_manager = None" by (simp add: example_manager_eq)
  have 4: "?net = (10, Resolves unauthorized) # (20, Resolves refreshed) # (30, Resolves unauthorized) # []"
    by simp
  have 5: "resp_status unauthorized = 401" by (simp add: unauthorized_def)
  have 6: "refresh_result example_config (fst (20, Resolves refreshed)) (snd (20::int, Resolves refreshed))
      = Inr ?new"
    by (simp add: refresh_result_def manager_defs example_defs)
  have 7: "read_body unauthorized = Inr (JStr [])"
    by (simp add: read_body_def unauthorized_def)
  have 8: "?r = (fst ?r, fst (snd ?r), snd (snd ?r))" by simp
  have 9: "fetches example_manager = []" by (simp add: example_manager_eq)
  have 10: "opt_headers (options example_request) = None" by (simp add: example_request_def)
  let ?hdrs = "spread [''Authorization'' \<mapsto> bearer (token example_token)] (headers example_request)"
  from request_refresh_and_retry[OF 1 2 3 4 5 6 7 refl 8] 10
  have a: "fst ?r = Returned (respond unauthorized (JStr []))"
    and b: "fetches (snd (snd ?r)) = fetches example_manager @
           [request_call example_host example_request ?hdrs,
            refresh_call example_config,
            request_call example_host example_request
              (?hdrs(''Authorization'' \<mapsto> bearer (token ?new)))]"
    and c: "init_headers (call_init (last (fetches (snd (snd ?r))))) ''Authorization''
              = Some (bearer (token ?new))"
    and d: "accessToken (snd (snd ?r)) = Some ?new"
    by blast+
  have e: "map call_url (fetches (snd (snd ?r)))
      = [''https://api.example.com/data'', ''https://api.example.com/auth/refresh'',
         ''https://api.example.com/data'']"
    unfolding b 9 by (simp add: request_call_def refresh_call_def example_defs)
  from c have f: "init_headers (call_init (last (fetches (snd (snd ?r))))) ''Authorization''
      = Some ''Bearer new.access.token''"
    by (simp add: bearer_def)
  from a e f d show ?thesis by blast
qed

text \<open>
  Claim C5 as stated fails when the manager has no token: \<open>getAccessToken\<close> refreshes
  first, the request then gets a 401, and the call makes four calls of \<open>fetch\<close>, two of
  them to the refresh endpoint.
\<close>

theorem four_calls_counterexample:
  "fst (request example_host example_config example_request
          [(10, Resolves refreshed), (20, Resolves unauthorized), (30, Resolves refreshed),
           (40, Resolves served)] (new_manager 0))
     = Returned (respond served (JObj [(''data'', JStr ''test'')]))
   \<and> map call_url
        (fetches
           (snd (snd (request example_host example_config example_request
                        [(10, Resolves refreshed), (20, Resolves unauthorized), (30, Resolves refreshed),
                         (40, Resolves served)] (new_manager 0)))))
     = [''https://api.example.com/auth/refresh'', ''https://api.example.com/data'',
        ''https://api.example.com/auth/refresh'', ''https://api.example.com/data'']"
  by (simp add: request_defs manager_defs example_defs)

subsection \<open>The invariant of the current token\<close>

text \<open>
  Claim C6, amended. In every state that a sequence of events leads to, provided no event
  hands \<open>setAccessToken\<close> a token object with a malformed string, the current token is
  absent or well formed. \<open>setAccessToken\<close> with a string and a refresh that settles
  preserve this; \<open>setAccessToken\<close> with a token object stores the object as it is, and
  the current token is well formed afterwards exactly when the object's string is.
\<close>

theorem token_well_formed_unless_object:
  "(list_all well_formed_input evs \<longrightarrow> token_well_formed (run h cfg evs (new_manager now)))
   \<and> (token_well_formed s \<longrightarrow> token_well_formed (snd (setAccessToken h cfg (TokenString tok) s)))
   \<and> (token_well_formed s \<longrightarrow> token_well_formed (snd (refresh_settle h cfg p x s)))
   \<and> (token_well_formed (snd (setAccessToken h cfg (TokenObject t) s))
        \<longleftrightarrow> isValidJWTFormat (JStr (token t)))"
proof -
  have "token_well_formed (new_manager now)"
    by (simp add: token_well_formed_def new_manager_def)
  then have "list_all well_formed_input evs \<longrightarrow> token_well_formed (run h cfg evs (new_manager now))"
    by (simp add: run_well_formed)
  moreover have "token_well_formed (snd (setAccessToken h cfg (TokenObject t) s))
        \<longleftrightarrow> isValidJWTFormat (JStr (token t))"
    by (simp add: setAccessToken_def token_well_formed_def)
  ultimately show ?thesis
    by (simp add: setAccessToken_string_well_formed refresh_settle_well_formed)
qed

text \<open>The theorem at a string, a refresh that settles and a well-formed token object.\<close>

theorem token_well_formed_unless_object_witness:
  "list_all well_formed_input
     [SetAccessToken (TokenString ''eyJhbGciOiJIUzI1NiJ9.eyJleHAiOjE3MDAwMDAwMDB9.signature''),
      RefreshAccessToken, FetchSettles 0 1000 (Resolves refreshed),
      SetAccessToken (TokenObject example_token)]
   \<and> token_well_formed
       (run example_host example_config
          [SetAccessToken (TokenString ''eyJhbGciOiJIUzI1NiJ9.eyJleHAiOjE3MDAwMDAwMDB9.signature''),
           RefreshAccessToken, FetchSettles 0 1000 (Resolves refreshed),
           SetAccessToken (TokenObject example_token)]
          (new_manager 0))"
proof -
  have 1: "list_all well_formed_input
     [SetAccessToken (TokenString ''eyJhbGciOiJIUzI1NiJ9.eyJleHAiOjE3MDAwMDAwMDB9.signature''),
      RefreshAccessToken, FetchSettles 0 1000 (Resolves refreshed),
      SetAccessToken (TokenObject example_token)]"
    by (simp add: example_token_def isValidJWTFormat_def)
  with token_well_formed_unless_object[of _ example_host example_config 0] show ?thesis
    by blast
qed

text \<open>
  Claim C6 as stated fails: \<open>setAccessToken\<close> stores a token object whose string has one
  segment.
\<close>

theorem malformed_token_object_counterexample:
  "\<not> token_well_formed
       (run example_host example_config
          [SetAccessToken (TokenObject \<lparr>token = ''invalid-token'', expiresAt = Num 3600000\<rparr>)]
          (new_manager 0))"
  by (simp add: manager_defs example_defs token_well_formed_def)

subsection \<open>The timer\<close>

text \<open>
  Claim C9. In every state \<open>s\<close> that a sequence of events leads to, at most one timer
  is armed. \<open>scheduleTokenRefresh\<close> leaves none of the timers armed that were armed
  before, and arms one, a new one, exactly when there is a current token and
  \<open>expiresAt - now - refreshBuffer\<close> is positive. A timer that fires is armed no more.
  The handler that the timer puts on the promise of its refresh never throws, and when
  that refresh fails the error is passed to \<open>console.warn\<close>.
\<close>

theorem one_refresh_timer:
  assumes "s = run h cfg evs (new_manager now)"
  shows "length (timers s) \<le> 1
       \<and> length (timers (scheduleTokenRefresh cfg s)) \<le> 1
       \<and> set (timers (scheduleTokenRefresh cfg s)) \<inter> set (timers s) = {}
       \<and> (timers (scheduleTokenRefresh cfg s) \<noteq> [] \<longleftrightarrow>
            (\<exists>t. accessToken s = Some t
               \<and> js_gt (js_minus (js_minus (expiresAt t) (clock s)) (refreshBuffer cfg)) 0))
       \<and> (\<forall>t. t \<notin> fst ` set (timers (step h cfg s (TimerFires t))))
       \<and> (\<forall>r s'. fst (scheduled_catch r s') = Inr ())
       \<and> (\<forall>t p x e s2.
             t \<in> fst ` set (timers s)
             \<and> refreshPromise (step h cfg s (TimerFires t)) = Some p
             \<and> refresh_settle h cfg p x (step h cfg s (TimerFires t)) = (Inl e, s2)
             \<longrightarrow> e \<in> set (warnings s2))"
proof -
  have inv: "one_timer s"
    unfolding assms by (rule run_one_timer[OF new_manager_one_timer])
  have swallowed: "e \<in> set (warnings s2)"
    if t: "t \<in> fst ` set (timers s)"
      and p: "refreshPromise (step h cfg s (TimerFires t)) = Some p"
      and r: "refresh_settle h cfg p x (step h cfg s (TimerFires t)) = (Inl e, s2)"
    for t p x e s2
  proof -
    let ?s1 = "timer_fires cfg t s"
    from t have s1: "step h cfg s (TimerFires t) = ?s1" by simp
    from p s1 have c: "p \<in> set (catching ?s1)" by (simp add: timer_fires_catching)
    from r s1 have r': "refresh_settle h cfg p x ?s1 = (Inl e, s2)" by simp
    then have "refresh_result cfg (fst x) (snd x) = Inl e"
      by (cases "refresh_result cfg (fst x) (snd x)")
         (simp_all add: refresh_settle_success refresh_settle_failure)
    from refresh_settle_failure[OF this, of h p ?s1] r'
    have "s2 = settle_promise p (Inl e)
            ((notify (OnTokenRefreshError e)
                (snd (performTokenRefresh cfg (snd x)
                   (?s1\<lparr>clock := fst x, outstanding := removeAll p (outstanding ?s1)\<rparr>))))
             \<lparr>refreshPromise := None\<rparr>)"
      by simp
    with c show ?thesis by (simp add: settle_promise_warns)
  qed
  show ?thesis
  proof (intro conjI allI impI)
    show "length (timers s) \<le> 1" using inv by (rule one_timer_length)
    show "length (timers (scheduleTokenRefresh cfg s)) \<le> 1"
      using inv by (intro one_timer_length scheduleTokenRefresh_one_timer)
    show "set (timers (scheduleTokenRefresh cfg s)) \<inter> set (timers s) = {}"
      using inv by (rule scheduleTokenRefresh_cancels)
    show "timers (scheduleTokenRefresh cfg s) \<noteq> [] \<longleftrightarrow>
            (\<exists>t. accessToken s = Some t
               \<and> js_gt (js_minus (js_minus (expiresAt t) (clock s)) (refreshBuffer cfg)) 0)"
      using inv by (rule scheduleTokenRefresh_armed)
    show "t \<notin> fst ` set (timers (step h cfg s (TimerFires t)))" for t
      by (auto simp: timer_fires_timers)
    show "fst (scheduled_catch r s') = Inr ()" for r s'
      by (simp add: scheduled_catch_def split: sum.splits)
    show "e \<in> set (warnings s2)"
      if "t \<in> fst ` set (timers s)
             \<and> refreshPromise (step h cfg s (TimerFires t)) = Some p
             \<and> refresh_settle h cfg p x (step h cfg s (TimerFires t)) = (Inl e, s2)"
      for t p x e s2
      using that swallowed by blast
  qed
qed

text \<open>The theorem at a manager that was given a token.\<close>

theorem one_refresh_timer_witness:
  "timers (run example_host example_config [SetAccessToken (TokenObject example_token)] (new_manager 0))
     = [(1, 3594000)]
   \<and> timers (scheduleTokenRefresh example_config
        (run example_host example_config [SetAccessToken (TokenObject example_token)] (new_manager 0)))
     = [(2, 3594000)]
   \<and> length (timers (scheduleTokenRefresh example_config
        (run example_host example_config [SetAccessToken (TokenObject example_token)] (new_manager 0))))
     \<le> 1
   \<and> set (timers (scheduleTokenRefresh example_config
        (run example_host example_config [SetAccessToken (TokenObject example_token)] (new_manager 0))))
     \<inter> set (timers
        (run example_host example_config [SetAccessToken (TokenObject example_token)] (new_manager 0)))
     = {}"
proof -
  let ?s = "run example_host example_config [SetAccessToken (TokenObject example_token)] (new_manager 0)"
  have 1: "timers ?s = [(1, 3594000)]"
    by (simp add: manager_defs example_defs)
  have 2: "timers (scheduleTokenRefresh example_config ?s) = [(2, 3594000)]"
    by (simp add: manager_defs example_defs)
  from one_refresh_timer[OF refl, of example_host example_config
         "[SetAccessToken (TokenObject example_token)]" 0] 1 2
  show ?thesis by blast
qed

end
